theory Spec2Isabelle
  imports Main "HOL-Library.Char_ord" "HOL-Library.List_Lexorder"
begin

section \<open>Data model of \<open>src/database/schema_analyzer.py\<close>\<close>

text \<open>
  The script parses its input file into \<open>schema_data\<close>; the model starts there (line 47)
  with a JSON array, and takes the timestamp of line 85 as a parameter. The elements
  of the array and the values of their fields are whatever \<open>json.loads\<close> delivers:
  \<open>None\<close>, booleans, integers, strings, lists and dicts. A JSON number with a fraction
  or an exponent is a Python float, whose text is the shortest round-trip form of an
  IEEE double; the model has the integers only. In every branch of the script a float
  goes the way an integer goes (it can be a dict key, it has no \<open>split\<close>). A Python
  \<open>str\<close> is modelled by its UTF-8 bytes: byte-wise lexicographic order is code point
  order, and \<open>'.'\<close> is a single byte that occurs in no multi-byte sequence. A string
  with a lone surrogate has no UTF-8 form and is outside the model. The files are taken
  to be written in UTF-8 (the script opens them with the encoding of the locale), and
  failures of the file system are not modelled.
\<close>

datatype jval =
    JNull
  | JBool bool
  | JInt int
  | JStr string
  | JArr "jval list"
  | JObj "(string \<times> jval) list"

text \<open>
  The exceptions the script can raise on such input; each is caught at line 214 and
  ends the run with status 1.
\<close>

datatype error = KeyError string | TypeError | AttributeError

text \<open>
  A JSON object as the dict \<open>json.loads\<close> builds: a member name given twice keeps its last
  value, and the names keep the order of their first occurrence.
\<close>

definition member :: "(string \<times> 'a) list \<Rightarrow> string \<rightharpoonup> 'a" where
  "member kvs k = map_of (rev kvs) k"

definition py_dict :: "(string \<times> 'a) list \<Rightarrow> (string \<times> 'a) list" where
  "py_dict kvs =
     concat (map (\<lambda>k. case member kvs k of None \<Rightarrow> [] | Some v \<Rightarrow> [(k, v)])
       (rev (remdups (rev (map fst kvs)))))"

text \<open>
  Python's \<open>==\<close>, and with it the identity of dict keys: \<open>True\<close> equals \<open>1\<close> and \<open>False\<close>
  equals \<open>0\<close>, lists are equal element by element, dicts when they bind the same names
  to equal values. Two values are equal when their normal forms are the same.
\<close>

primrec norm :: "jval \<Rightarrow> jval" where
  "norm JNull = JNull"
| "norm (JBool b) = JInt (if b then 1 else 0)"
| "norm (JInt i) = JInt i"
| "norm (JStr s) = JStr s"
| "norm (JArr xs) = JArr (map norm xs)"
| "norm (JObj kvs) = JObj (sort_key fst (py_dict (map (map_prod id norm) kvs)))"

definition py_eq :: "jval \<Rightarrow> jval \<Rightarrow> bool" where
  "py_eq a b = (norm a = norm b)"

text \<open>Values that can be dict keys; a list or a dict as a key raises \<open>TypeError\<close>.\<close>

fun hashable :: "jval \<Rightarrow> bool" where
  "hashable (JArr xs) = False"
| "hashable (JObj kvs) = False"
| "hashable v = True"

text \<open>The seven local variables bound at lines 57--63.\<close>

record column_record =
  schema :: jval
  table :: jval
  column :: jval
  data_type :: jval
  nullable :: jval
  constraint_type :: jval
  references_table :: jval

text \<open>The dict appended to \<open>'columns'\<close> (lines 66--70).\<close>

record column_info =
  col_name :: jval
  col_type :: jval
  col_nullable :: bool

text \<open>The dict appended to \<open>'foreign_keys'\<close> (lines 76--79).\<close>

record fk_info =
  fk_column :: jval
  fk_references :: jval

text \<open>The value of the inner \<open>defaultdict\<close> (lines 49--54).\<close>

record table_info =
  columns :: "column_info list"
  primary_key :: jval
  foreign_keys :: "fk_info list"
  unique_constraints :: "jval list"

text \<open>
  A Python dict keeps insertion order, which \<open>list(d.keys())\<close> exposes in the statistics,
  so a dict is an association list. Keys are found by Python equality. \<open>dict_set\<close>
  replaces the value of a key in place, keeping the key object that is there, and
  appends a new key at the end.
\<close>

type_synonym 'v dict = "(jval \<times> 'v) list"

type_synonym tables_dict = "table_info dict"

type_synonym schema_map = "tables_dict dict"

definition dict_find :: "'v dict \<Rightarrow> jval \<rightharpoonup> 'v" where
  "dict_find d k = map_of (map (\<lambda>(k', v). (norm k', v)) d) (norm k)"

fun dict_set :: "jval \<Rightarrow> 'v \<Rightarrow> 'v dict \<Rightarrow> 'v dict" where
  "dict_set k v [] = [(k, v)]"
| "dict_set k v ((k', v') # d) =
     (if py_eq k' k then (k', v) # d else (k', v') # dict_set k v d)"

text \<open>\<open>d[k]\<close> on a \<open>defaultdict\<close> whose factory yields \<open>dflt\<close>, for a hashable \<open>k\<close>.\<close>

definition dict_get :: "'v \<Rightarrow> 'v dict \<Rightarrow> jval \<Rightarrow> 'v" where
  "dict_get dflt d k = (case dict_find d k of None \<Rightarrow> dflt | Some v \<Rightarrow> v)"

definition default_table :: table_info where
  "default_table =
     \<lparr>columns = [], primary_key = JNull, foreign_keys = [], unique_constraints = []\<rparr>"

definition tables_of :: "schema_map \<Rightarrow> jval \<Rightarrow> tables_dict" where
  "tables_of org s = dict_get [] org s"

definition table_data :: "schema_map \<Rightarrow> jval \<Rightarrow> jval \<Rightarrow> table_info" where
  "table_data org s t = dict_get default_table (tables_of org s) t"

section \<open>Aggregation (lines 56--81)\<close>

text \<open>
  \<open>item[k]\<close>: on a dict a missing key raises \<open>KeyError(k)\<close>; on any other value
  subscripting with a string raises \<open>TypeError\<close>.
\<close>

definition get_field :: "jval \<Rightarrow> string \<Rightarrow> error + jval" where
  "get_field it k =
     (case it of
        JObj kvs \<Rightarrow> (case member kvs k of None \<Rightarrow> Inl (KeyError k) | Some v \<Rightarrow> Inr v)
      | _ \<Rightarrow> Inl TypeError)"

text \<open>Lines 57--63, in the order the source reads the fields.\<close>

definition read_item :: "jval \<Rightarrow> error + column_record" where
  "read_item it =
     (case get_field it ''schema'' of Inl e \<Rightarrow> Inl e | Inr s \<Rightarrow>
     (case get_field it ''table'' of Inl e \<Rightarrow> Inl e | Inr t \<Rightarrow>
     (case get_field it ''column'' of Inl e \<Rightarrow> Inl e | Inr c \<Rightarrow>
     (case get_field it ''data_type'' of Inl e \<Rightarrow> Inl e | Inr d \<Rightarrow>
     (case get_field it ''nullable'' of Inl e \<Rightarrow> Inl e | Inr n \<Rightarrow>
     (case get_field it ''constraint_type'' of Inl e \<Rightarrow> Inl e | Inr ct \<Rightarrow>
     (case get_field it ''references_table'' of Inl e \<Rightarrow> Inl e | Inr r \<Rightarrow>
        Inr \<lparr>schema = s, table = t, column = c, data_type = d, nullable = n,
             constraint_type = ct, references_table = r\<rparr>)))))))"

text \<open>
  Lines 66--70: the column descriptor of a row. Only a string equals the string
  \<open>'NULL'\<close>.
\<close>

definition mk_column :: "column_record \<Rightarrow> column_info" where
  "mk_column r =
     \<lparr>col_name = column r, col_type = data_type r, col_nullable = (nullable r = JStr ''NULL'')\<rparr>"

definition mk_fk :: "column_record \<Rightarrow> fk_info" where
  "mk_fk r = \<lparr>fk_column = column r, fk_references = references_table r\<rparr>"

text \<open>Lines 66--81 on the table entry of the row.\<close>

definition add_to_table :: "column_record \<Rightarrow> table_info \<Rightarrow> table_info" where
  "add_to_table r td =
     (let td1 = td\<lparr>columns := columns td @ [mk_column r]\<rparr> in
      if constraint_type r = JStr ''PRIMARY KEY'' then td1\<lparr>primary_key := column r\<rparr>
      else if constraint_type r = JStr ''FOREIGN KEY''
        then td1\<lparr>foreign_keys := foreign_keys td1 @ [mk_fk r]\<rparr>
      else if constraint_type r = JStr ''UNIQUE''
        then td1\<lparr>unique_constraints := unique_constraints td1 @ [column r]\<rparr>
      else td1)"

text \<open>
  The loop body after the reads, when schema and table can be keys:
  \<open>organized_schema[schema][table]\<close> creates the missing entries, then the table entry
  is updated in place.
\<close>

definition store_record :: "schema_map \<Rightarrow> column_record \<Rightarrow> schema_map" where
  "store_record org r =
     (let tabs = tables_of org (schema r);
          td = dict_get default_table tabs (table r)
      in dict_set (schema r) (dict_set (table r) (add_to_table r td) tabs) org)"

text \<open>
  Line 66 subscripts \<open>organized_schema\<close> with the schema and the result with the table
  before anything is stored: an unhashable one raises \<open>TypeError\<close>.
\<close>

definition add_record :: "schema_map \<Rightarrow> column_record \<Rightarrow> error + schema_map" where
  "add_record org r =
     (if \<not> hashable (schema r) then Inl TypeError
      else if \<not> hashable (table r) then Inl TypeError
      else Inr (store_record org r))"

fun aggregate_loop :: "schema_map \<Rightarrow> jval list \<Rightarrow> error + schema_map" where
  "aggregate_loop org [] = Inr org"
| "aggregate_loop org (it # rest) =
     (case read_item it of
        Inl e \<Rightarrow> Inl e
      | Inr r \<Rightarrow>
          (case add_record org r of
             Inl e \<Rightarrow> Inl e
           | Inr org' \<Rightarrow> aggregate_loop org' rest))"

definition aggregate :: "jval list \<Rightarrow> error + schema_map" where
  "aggregate schema_data = aggregate_loop [] schema_data"

section \<open>Python primitives used by the renderers\<close>

definition nl :: string where
  "nl = [CHR 0x0A]"

text \<open>The UTF-8 bytes of U+00ED (i with acute) and of U+2192 (rightwards arrow).\<close>

definition i_acute :: string where
  "i_acute = [CHR 0xC3, CHR 0xAD]"

definition arrow :: string where
  "arrow = [CHR 0xE2, CHR 0x86, CHR 0x92]"

text \<open>Decimal rendering of an \<open>int\<close>.\<close>

definition digit_char :: "nat \<Rightarrow> char" where
  "digit_char d = ''0123456789'' ! (d mod 10)"

fun str_nat :: "nat \<Rightarrow> string" where
  "str_nat n = (if n < 10 then [digit_char n] else str_nat (n div 10) @ [digit_char n])"

definition str_int :: "int \<Rightarrow> string" where
  "str_int i = (if i < 0 then ''-'' @ str_nat (nat (- i)) else str_nat (nat i))"

text \<open>\<open>sep.join(parts)\<close>.\<close>

fun join :: "string \<Rightarrow> string list \<Rightarrow> string" where
  "join sep [] = []"
| "join sep [x] = x"
| "join sep (x # y # ys) = x @ sep @ join sep (y # ys)"

text \<open>
  \<open>repr\<close> of a \<open>str\<close>: double quotes when the string has a single quote and no double
  quote, single quotes otherwise; backslash, the chosen quote, tab, newline and
  carriage return are escaped, the other ASCII control characters are written
  \<open>\xNN\<close>. Characters outside ASCII are copied, as Python does for the printable ones,
  which its Unicode tables decide; a non-printable character outside ASCII in a string
  nested in a list or dict is outside this model.
\<close>

definition hex_char :: "nat \<Rightarrow> char" where
  "hex_char d = ''0123456789abcdef'' ! (d mod 16)"

definition escape_char :: "char \<Rightarrow> char \<Rightarrow> string" where
  "escape_char q c =
     (if c = CHR 0x5C then [CHR 0x5C, CHR 0x5C]
      else if c = q then [CHR 0x5C, q]
      else if c = CHR 0x09 then [CHR 0x5C, CHR ''t'']
      else if c = CHR 0x0A then [CHR 0x5C, CHR ''n'']
      else if c = CHR 0x0D then [CHR 0x5C, CHR ''r'']
      else if (of_char c :: nat) < 32 \<or> (of_char c :: nat) = 127
        then [CHR 0x5C, CHR ''x'', hex_char (of_char c div 16), hex_char (of_char c)]
      else [c])"

definition repr_str :: "string \<Rightarrow> string" where
  "repr_str s =
     (let q = (if CHR 0x27 \<in> set s \<and> CHR 0x22 \<notin> set s then CHR 0x22 else CHR 0x27)
      in [q] @ concat (map (escape_char q) s) @ [q])"

text \<open>\<open>repr(v)\<close>, which \<open>str\<close> of a list or dict applies to the elements.\<close>

primrec py_repr :: "jval \<Rightarrow> string" where
  "py_repr JNull = ''None''"
| "py_repr (JBool b) = (if b then ''True'' else ''False'')"
| "py_repr (JInt i) = str_int i"
| "py_repr (JStr s) = repr_str s"
| "py_repr (JArr xs) = ''['' @ join '', '' (map py_repr xs) @ '']''"
| "py_repr (JObj kvs) =
     ''{'' @
     join '', ''
       (map (\<lambda>(k, shown). repr_str k @ '': '' @ shown) (py_dict (map (map_prod id py_repr) kvs))) @
     ''}''"

text \<open>\<open>str(v)\<close> as an f-string field renders it: a string as it is, anything else as \<open>repr\<close>.\<close>

definition py_str :: "jval \<Rightarrow> string" where
  "py_str v = (case v of JStr s \<Rightarrow> s | _ \<Rightarrow> py_repr v)"

text \<open>Truth value of \<open>if v:\<close>.\<close>

fun py_truthy :: "jval \<Rightarrow> bool" where
  "py_truthy JNull = False"
| "py_truthy (JBool b) = b"
| "py_truthy (JInt i) = (i \<noteq> 0)"
| "py_truthy (JStr s) = (s \<noteq> [])"
| "py_truthy (JArr xs) = (xs \<noteq> [])"
| "py_truthy (JObj kvs) = (kvs \<noteq> [])"

text \<open>
  \<open>s.split(c)\<close> for a one-character separator: cuts at every occurrence, keeping empty
  parts; \<open>cur\<close> is the part being read.
\<close>

fun split_acc :: "char \<Rightarrow> string \<Rightarrow> string \<Rightarrow> string list" where
  "split_acc c cur [] = [cur]"
| "split_acc c cur (x # xs) =
     (if x = c then cur # split_acc c [] xs else split_acc c (cur @ [x]) xs)"

definition split_dot :: "string \<Rightarrow> string list" where
  "split_dot s = split_acc (CHR ''.'') [] s"

text \<open>
  \<open>sorted(d.keys())\<close>. Dict keys are \<open>None\<close>, booleans, integers and strings. Strings
  compare with strings, lexicographically, and numbers (booleans among them) with
  numbers; every other comparison raises \<open>TypeError\<close>. Sorting two or more keys compares
  each of them with another one, so it succeeds only when all are strings or all are
  numbers; fewer than two keys are never compared.
\<close>

fun is_str :: "jval \<Rightarrow> bool" where
  "is_str (JStr s) = True"
| "is_str v = False"

fun is_num :: "jval \<Rightarrow> bool" where
  "is_num (JInt i) = True"
| "is_num (JBool b) = True"
| "is_num v = False"

fun str_of :: "jval \<Rightarrow> string" where
  "str_of (JStr s) = s"
| "str_of v = []"

fun num_of :: "jval \<Rightarrow> int" where
  "num_of (JInt i) = i"
| "num_of (JBool b) = (if b then 1 else 0)"
| "num_of v = 0"

definition py_sorted :: "jval list \<Rightarrow> error + jval list" where
  "py_sorted ks =
     (if length ks < 2 then Inr ks
      else if list_all is_str ks then Inr (sort_key str_of ks)
      else if list_all is_num ks then Inr (sort_key num_of ks)
      else Inl TypeError)"

text \<open>\<open>for x in xs: out += f(x)\<close> where \<open>f\<close> may raise: the first exception ends the loop.\<close>

fun concat_results :: "('a \<Rightarrow> error + 'b list) \<Rightarrow> 'a list \<Rightarrow> error + 'b list" where
  "concat_results f [] = Inr []"
| "concat_results f (x # xs) =
     (case f x of
        Inl e \<Rightarrow> Inl e
      | Inr s \<Rightarrow> (case concat_results f xs of Inl e \<Rightarrow> Inl e | Inr r \<Rightarrow> Inr (s @ r)))"

section \<open>Markdown summary (lines 85--119)\<close>

definition summary_header :: "string \<Rightarrow> string" where
  "summary_header timestamp =
     ''# Resumen del Esquema de Base de Datos'' @ nl @ nl @
     ''*Generado el: '' @ timestamp @ ''*'' @ nl @ nl"

definition fk_label :: "fk_info \<Rightarrow> string" where
  "fk_label fk = ''FK '' @ arrow @ '' '' @ py_str (fk_references fk)"

text \<open>
  Lines 105--113; \<open>in\<close> and \<open>==\<close> are Python equality, \<open>next(..., None)\<close> takes the first
  match, and the dict it yields is always true.
\<close>

definition constraint_labels :: "table_info \<Rightarrow> column_info \<Rightarrow> string list" where
  "constraint_labels td col =
     (if py_eq (col_name col) (primary_key td) then [''PRIMARY KEY''] else []) @
     (if list_ex (py_eq (col_name col)) (unique_constraints td) then [''UNIQUE''] else []) @
     (case find (\<lambda>fk. py_eq (fk_column fk) (col_name col)) (foreign_keys td) of
        None \<Rightarrow> []
      | Some fk \<Rightarrow> [fk_label fk])"

definition nullable_text :: "bool \<Rightarrow> string" where
  "nullable_text b = (if b then ''S'' @ i_acute else ''No'')"

text \<open>Line 115.\<close>

definition summary_row :: "table_info \<Rightarrow> column_info \<Rightarrow> string" where
  "summary_row td col =
     ''| '' @ py_str (col_name col) @ '' | '' @ py_str (col_type col) @ '' | '' @
     nullable_text (col_nullable col) @ '' | '' @
     join '', '' (constraint_labels td col) @ '' |'' @ nl"

text \<open>Lines 96--117.\<close>

definition summary_table :: "jval \<Rightarrow> table_info \<Rightarrow> string" where
  "summary_table t td =
     ''### Tabla: '' @ py_str t @ nl @ nl @
     ''#### Columnas'' @ nl @ nl @
     ''| Nombre | Tipo | Nullable | Restricciones |'' @ nl @
     ''|--------|------|----------|---------------|'' @ nl @
     concat (map (summary_row td) (columns td)) @ nl"

text \<open>Lines 90--119, one schema.\<close>

definition summary_schema :: "schema_map \<Rightarrow> jval \<Rightarrow> error + string" where
  "summary_schema org s =
     (case py_sorted (map fst (tables_of org s)) of
        Inl e \<Rightarrow> Inl e
      | Inr tables \<Rightarrow>
          Inr (''## Esquema: '' @ py_str s @ nl @ nl @
               ''Contiene '' @ str_nat (length tables) @ '' tabla(s):'' @ nl @ nl @
               concat (map (\<lambda>t. summary_table t (table_data org s t)) tables) @ nl))"

definition render_summary :: "string \<Rightarrow> schema_map \<Rightarrow> error + string" where
  "render_summary timestamp org =
     (case py_sorted (map fst org) of
        Inl e \<Rightarrow> Inl e
      | Inr schemas \<Rightarrow>
          (case concat_results (summary_schema org) schemas of
             Inl e \<Rightarrow> Inl e
           | Inr body \<Rightarrow> Inr (summary_header timestamp @ body)))"

section \<open>Relationship view (lines 130--153)\<close>

definition relations_header :: "string \<Rightarrow> string" where
  "relations_header timestamp =
     ''# Relaciones entre Tablas'' @ nl @ nl @
     ''*Generado el: '' @ timestamp @ ''*'' @ nl @ nl @
     ''```mermaid'' @ nl @ ''erDiagram'' @ nl"

text \<open>Lines 139--140.\<close>

definition entity_column :: "table_info \<Rightarrow> column_info \<Rightarrow> string" where
  "entity_column td col =
     ''        '' @ py_str (col_type col) @ '' '' @ py_str (col_name col) @ '' '' @
     (if py_eq (col_name col) (primary_key td) then ''PK'' else []) @ nl"

text \<open>Lines 137--141.\<close>

definition entity_block :: "jval \<Rightarrow> jval \<Rightarrow> table_info \<Rightarrow> string" where
  "entity_block s t td =
     ''    '' @ py_str s @ ''_'' @ py_str t @ '' {'' @ nl @
     concat (map (entity_column td) (columns td)) @
     ''    }'' @ nl"

definition entities_schema :: "schema_map \<Rightarrow> jval \<Rightarrow> error + string" where
  "entities_schema org s =
     (case py_sorted (map fst (tables_of org s)) of
        Inl e \<Rightarrow> Inl e
      | Inr tables \<Rightarrow> Inr (concat (map (\<lambda>t. entity_block s t (table_data org s t)) tables)))"

text \<open>Line 151.\<close>

definition relation_text :: "jval \<Rightarrow> jval \<Rightarrow> string \<Rightarrow> string \<Rightarrow> jval \<Rightarrow> string" where
  "relation_text s t ref_schema ref_table col =
     ''    '' @ py_str s @ ''_'' @ py_str t @ '' ||--o{ '' @ ref_schema @ ''_'' @ ref_table @
     '' : '' @ [CHR 0x22] @ py_str col @ [CHR 0x22] @ nl"

text \<open>
  Lines 147--151 for one foreign-key entry: the lines it adds (none or one). A
  reference that is true and not a string has no \<open>split\<close>: \<open>AttributeError\<close>.
\<close>

definition relation_lines :: "jval \<Rightarrow> jval \<Rightarrow> fk_info \<Rightarrow> error + string list" where
  "relation_lines s t fk =
     (if py_truthy (fk_references fk) then
        (case fk_references fk of
           JStr ref \<Rightarrow>
             (case split_dot ref of
                [ref_schema, ref_table] \<Rightarrow>
                  Inr [relation_text s t ref_schema ref_table (fk_column fk)]
              | _ \<Rightarrow> Inr [])
         | _ \<Rightarrow> Inl AttributeError)
      else Inr [])"

text \<open>Lines 146--151 for one table.\<close>

definition relations_table :: "jval \<Rightarrow> jval \<Rightarrow> table_info \<Rightarrow> error + string list" where
  "relations_table s t td = concat_results (relation_lines s t) (foreign_keys td)"

definition relations_schema :: "schema_map \<Rightarrow> jval \<Rightarrow> error + string list" where
  "relations_schema org s =
     (case py_sorted (map fst (tables_of org s)) of
        Inl e \<Rightarrow> Inl e
      | Inr tables \<Rightarrow> concat_results (\<lambda>t. relations_table s t (table_data org s t)) tables)"

text \<open>The relationship lines of the whole diagram (lines 144--151).\<close>

definition all_relations :: "schema_map \<Rightarrow> error + string list" where
  "all_relations org =
     (case py_sorted (map fst org) of
        Inl e \<Rightarrow> Inl e
      | Inr schemas \<Rightarrow> concat_results (relations_schema org) schemas)"

text \<open>The entity blocks of the whole diagram (lines 135--141).\<close>

definition all_entities :: "schema_map \<Rightarrow> error + string" where
  "all_entities org =
     (case py_sorted (map fst org) of
        Inl e \<Rightarrow> Inl e
      | Inr schemas \<Rightarrow> concat_results (entities_schema org) schemas)"

definition relations_footer :: string where
  "relations_footer = ''```'' @ nl"

definition render_relations :: "string \<Rightarrow> schema_map \<Rightarrow> error + string" where
  "render_relations timestamp org =
     (case all_entities org of
        Inl e \<Rightarrow> Inl e
      | Inr ents \<Rightarrow>
          (case all_relations org of
             Inl e \<Rightarrow> Inl e
           | Inr rels \<Rightarrow>
               Inr (relations_header timestamp @ ents @ concat rels @ relations_footer)))"

section \<open>Statistics (lines 164--205)\<close>

text \<open>
  The dict handed to \<open>json.dump\<close>; the JSON text itself is the library's rendering of
  this value and is not modelled.
\<close>

record table_stat =
  ts_name :: jval
  ts_columns :: nat
  ts_has_primary_key :: bool
  ts_foreign_keys :: nat
  ts_unique_constraints :: nat

record schema_stat =
  ss_tables :: nat
  ss_table_details :: "table_stat list"

record stats =
  st_timestamp :: string
  st_schemas :: nat
  st_tables :: nat
  st_columns :: nat
  st_schema_details :: "schema_stat dict"

text \<open>Lines 172--173: the inner loop adding the column counts of a schema's tables.\<close>

fun count_columns :: "schema_map \<Rightarrow> jval \<Rightarrow> jval list \<Rightarrow> nat \<Rightarrow> nat" where
  "count_columns org s [] total_columns = total_columns"
| "count_columns org s (t # ts) total_columns =
     count_columns org s ts (total_columns + length (columns (table_data org s t)))"

text \<open>Lines 168--173: the state is \<open>(total_tables, total_columns)\<close>.\<close>

fun count_totals :: "schema_map \<Rightarrow> jval list \<Rightarrow> nat \<times> nat \<Rightarrow> nat \<times> nat" where
  "count_totals org [] totals = totals"
| "count_totals org (s # ss) (total_tables, total_columns) =
     (let tables = map fst (tables_of org s) in
      count_totals org ss
        (total_tables + length tables, count_columns org s tables total_columns))"

text \<open>Lines 194--200; \<open>is not None\<close> is identity with \<open>None\<close>.\<close>

definition mk_table_stat :: "jval \<Rightarrow> table_info \<Rightarrow> table_stat" where
  "mk_table_stat t td =
     \<lparr>ts_name = t,
      ts_columns = length (columns td),
      ts_has_primary_key = (primary_key td \<noteq> JNull),
      ts_foreign_keys = length (foreign_keys td),
      ts_unique_constraints = length (unique_constraints td)\<rparr>"

text \<open>Lines 189--205 for one schema.\<close>

definition mk_schema_stat :: "schema_map \<Rightarrow> jval \<Rightarrow> schema_stat" where
  "mk_schema_stat org s =
     (let tables = map fst (tables_of org s) in
      \<lparr>ss_tables = length tables,
       ss_table_details = map (\<lambda>t. mk_table_stat t (table_data org s t)) tables\<rparr>)"

text \<open>Lines 188--205: \<open>stats["schema_details"][schema] = ...\<close> for each schema.\<close>

fun schema_details :: "schema_map \<Rightarrow> jval list \<Rightarrow> schema_stat dict \<Rightarrow> schema_stat dict" where
  "schema_details org [] details = details"
| "schema_details org (s # ss) details =
     schema_details org ss (dict_set s (mk_schema_stat org s) details)"

definition make_stats :: "string \<Rightarrow> schema_map \<Rightarrow> stats" where
  "make_stats timestamp org =
     (let schemas = map fst org;
          totals = count_totals org schemas (0, 0)
      in \<lparr>st_timestamp = timestamp,
          st_schemas = length schemas,
          st_tables = fst totals,
          st_columns = snd totals,
          st_schema_details = schema_details org schemas []\<rparr>)"

section \<open>The run from the parsed input on (lines 47--218)\<close>

text \<open>
  What a run leaves behind: the exit status, the exception caught at line 214 if any,
  and the files written before it. Each file is written once its content is complete.
\<close>

record run_result =
  exit_code :: nat
  raised :: "error option"
  summary_file :: "string option"
  relations_file :: "string option"
  stats_file :: "stats option"

definition failed :: "error \<Rightarrow> string option \<Rightarrow> run_result" where
  "failed e summary =
     \<lparr>exit_code = 1, raised = Some e, summary_file = summary, relations_file = None,
      stats_file = None\<rparr>"

definition analyze :: "string \<Rightarrow> jval list \<Rightarrow> run_result" where
  "analyze timestamp schema_data =
     (case aggregate schema_data of
        Inl e \<Rightarrow> failed e None
      | Inr org \<Rightarrow>
          (case render_summary timestamp org of
             Inl e \<Rightarrow> failed e None
           | Inr summary \<Rightarrow>
               (case render_relations timestamp org of
                  Inl e \<Rightarrow> failed e (Some summary)
                | Inr relations \<Rightarrow>
                    \<lparr>exit_code = 0, raised = None, summary_file = Some summary,
                     relations_file = Some relations,
                     stats_file = Some (make_stats timestamp org)\<rparr>)))"

declare str_nat.simps [simp del]

section \<open>Notions used to state the properties\<close>

definition required_fields :: "string list" where
  "required_fields =
     [''schema'', ''table'', ''column'', ''data_type'', ''nullable'', ''constraint_type'',
      ''references_table'']"

text \<open>An element that is an object and has every required field (whatever its value).\<close>

definition complete :: "jval \<Rightarrow> bool" where
  "complete it =
     (case it of
        JObj kvs \<Rightarrow> list_all (\<lambda>k. member kvs k \<noteq> None) required_fields
      | _ \<Rightarrow> False)"

text \<open>The first required field, in reading order, that an object lacks.\<close>

definition first_missing :: "(string \<times> jval) list \<Rightarrow> string option" where
  "first_missing kvs = find (\<lambda>k. member kvs k = None) required_fields"

text \<open>A record whose schema and table can be dict keys.\<close>

definition keyable :: "column_record \<Rightarrow> bool" where
  "keyable r = (hashable (schema r) \<and> hashable (table r))"

text \<open>
  An element the loop body accepts: an object with the seven fields whose schema and
  table values can be dict keys.
\<close>

definition accepted :: "jval \<Rightarrow> bool" where
  "accepted it =
     (case it of
        JObj kvs \<Rightarrow>
          complete it \<and>
          list_all (\<lambda>k. case member kvs k of None \<Rightarrow> False | Some v \<Rightarrow> hashable v)
            [''schema'', ''table'']
      | _ \<Rightarrow> False)"

text \<open>The input object that carries the seven fields of a record.\<close>

definition item_of :: "column_record \<Rightarrow> jval" where
  "item_of r =
     JObj [(''schema'', schema r), (''table'', table r), (''column'', column r),
           (''data_type'', data_type r), (''nullable'', nullable r),
           (''constraint_type'', constraint_type r),
           (''references_table'', references_table r)]"

text \<open>The rows of the input that belong to table \<open>t\<close> of schema \<open>s\<close>, in input order.\<close>

definition rows_of :: "jval \<Rightarrow> jval \<Rightarrow> column_record list \<Rightarrow> column_record list" where
  "rows_of s t rs = filter (\<lambda>r. py_eq (schema r) s \<and> py_eq (table r) t) rs"

definition with_constraint :: "string \<Rightarrow> column_record list \<Rightarrow> column_record list" where
  "with_constraint c rs = filter (\<lambda>r. constraint_type r = JStr c) rs"

text \<open>The table entry described from the rows of one table.\<close>

definition table_of_rows :: "column_record list \<Rightarrow> table_info" where
  "table_of_rows rows =
     \<lparr>columns = map mk_column rows,
      primary_key =
        (if with_constraint ''PRIMARY KEY'' rows = [] then JNull
         else column (last (with_constraint ''PRIMARY KEY'' rows))),
      foreign_keys = map mk_fk (with_constraint ''FOREIGN KEY'' rows),
      unique_constraints = map column (with_constraint ''UNIQUE'' rows)\<rparr>"

text \<open>The entry stored for a (schema, table) pair, if the map has one.\<close>

definition find_table :: "schema_map \<Rightarrow> jval \<Rightarrow> jval \<Rightarrow> table_info option" where
  "find_table org s t = (case dict_find org s of None \<Rightarrow> None | Some tabs \<Rightarrow> dict_find tabs t)"

text \<open>The (schema, table) keys of the map, one per stored table entry.\<close>

definition table_keys :: "schema_map \<Rightarrow> (jval \<times> jval) list" where
  "table_keys org = concat (map (\<lambda>(s, tabs). map (\<lambda>(t, td). (s, t)) tabs) org)"

definition norm_pair :: "jval \<times> jval \<Rightarrow> jval \<times> jval" where
  "norm_pair p = (norm (fst p), norm (snd p))"

text \<open>A dict as Python has it: no two keys equal, at either level.\<close>

definition wf_dict :: "'v dict \<Rightarrow> bool" where
  "wf_dict d = distinct (map (\<lambda>p. norm (fst p)) d)"

definition wf_schema_map :: "schema_map \<Rightarrow> bool" where
  "wf_schema_map org = (wf_dict org \<and> list_all (\<lambda>(s, tabs). wf_dict tabs) org)"

text \<open>Keys that \<open>sorted\<close> accepts.\<close>

definition sortable :: "jval list \<Rightarrow> bool" where
  "sortable ks = (length ks < 2 \<or> list_all is_str ks \<or> list_all is_num ks)"

definition sortable_map :: "schema_map \<Rightarrow> bool" where
  "sortable_map org =
     (sortable (map fst org) \<and>
      list_all (\<lambda>s. sortable (map fst (tables_of org s))) (map fst org))"

text \<open>The keys of a dict in the order \<open>sorted\<close> gives them, when it accepts them.\<close>

definition sorted_keys :: "'v dict \<Rightarrow> jval list" where
  "sorted_keys d =
     (if length d < 2 then map fst d
      else if list_all is_num (map fst d) then sort_key num_of (map fst d)
      else sort_key str_of (map fst d))"

text \<open>
  Every foreign-key entry of the map with the schema and table that hold it, schemas
  and tables in sorted order, entries in list order.
\<close>

definition fk_entries :: "schema_map \<Rightarrow> (jval \<times> jval \<times> fk_info) list" where
  "fk_entries org =
     concat (map (\<lambda>s.
       concat (map (\<lambda>t. map (\<lambda>fk. (s, t, fk)) (foreign_keys (table_data org s t)))
         (sorted_keys (tables_of org s))))
       (sorted_keys org))"

text \<open>A reference that is a string with exactly two dot-separated parts: one dot.\<close>

definition two_parts :: "jval \<Rightarrow> bool" where
  "two_parts v =
     (case v of JStr ref \<Rightarrow> length (filter (\<lambda>c. c = CHR ''.'') ref) = 1 | _ \<Rightarrow> False)"

text \<open>A reference on which line 148 cannot fail: false, or a string.\<close>

definition plain_reference :: "jval \<Rightarrow> bool" where
  "plain_reference v = (\<not> py_truthy v \<or> is_str v)"

definition plain_references :: "schema_map \<Rightarrow> bool" where
  "plain_references org = list_all (\<lambda>e. plain_reference (fk_references (snd (snd e)))) (fk_entries org)"

text \<open>The two parts of a reference that has two.\<close>

definition ref_schema_of :: "fk_info \<Rightarrow> string" where
  "ref_schema_of fk = takeWhile (\<lambda>c. c \<noteq> CHR ''.'') (str_of (fk_references fk))"

definition ref_table_of :: "fk_info \<Rightarrow> string" where
  "ref_table_of fk = tl (dropWhile (\<lambda>c. c \<noteq> CHR ''.'') (str_of (fk_references fk)))"

text \<open>
  The markdown summary as a document around its column rows: the header with the
  timestamp, then for each schema in sorted order its heading and table count, and for
  each of its tables in sorted order the heading, the head of the column table, one
  row per input row of that table as \<open>row_text\<close> gives it, and an empty line.
\<close>

definition summary_with ::
  "(column_record \<Rightarrow> string) \<Rightarrow> string \<Rightarrow> schema_map \<Rightarrow> column_record list \<Rightarrow> string" where
  "summary_with row_text timestamp org rs =
     ''# Resumen del Esquema de Base de Datos'' @ [CHR 0x0A, CHR 0x0A] @
     ''*Generado el: '' @ timestamp @ ''*'' @ [CHR 0x0A, CHR 0x0A] @
     concat (map (\<lambda>s.
       ''## Esquema: '' @ py_str s @ [CHR 0x0A, CHR 0x0A] @
       ''Contiene '' @ str_nat (length (tables_of org s)) @ '' tabla(s):'' @
       [CHR 0x0A, CHR 0x0A] @
       concat (map (\<lambda>t.
         ''### Tabla: '' @ py_str t @ [CHR 0x0A, CHR 0x0A] @
         ''#### Columnas'' @ [CHR 0x0A, CHR 0x0A] @
         ''| Nombre | Tipo | Nullable | Restricciones |'' @ [CHR 0x0A] @
         ''|--------|------|----------|---------------|'' @ [CHR 0x0A] @
         concat (map row_text (rows_of s t rs)) @ [CHR 0x0A])
         (sorted_keys (tables_of org s))) @
       [CHR 0x0A])
       (sorted_keys org))"

text \<open>The constraint labels the summary shows in the row of an input row.\<close>

definition labels_of :: "schema_map \<Rightarrow> column_record \<Rightarrow> string list" where
  "labels_of org r = constraint_labels (table_data org (schema r) (table r)) (mk_column r)"

text \<open>The row of the summary for an input row, given its flag text and its labels.\<close>

definition row_with :: "string \<Rightarrow> string list \<Rightarrow> column_record \<Rightarrow> string" where
  "row_with flag labels r =
     ''| '' @ py_str (column r) @ '' | '' @ py_str (data_type r) @ '' | '' @ flag @ '' | '' @
     join '', '' labels @ '' |'' @ [CHR 0x0A]"

text \<open>The relationship line of a foreign-key entry whose reference has two parts.\<close>

definition relation_line :: "jval \<times> jval \<times> fk_info \<Rightarrow> string" where
  "relation_line e =
     (case e of (s, t, fk) \<Rightarrow>
        ''    '' @ py_str s @ ''_'' @ py_str t @ '' ||--o{ '' @
        ref_schema_of fk @ ''_'' @ ref_table_of fk @
        '' : '' @ [CHR 0x22] @ py_str (fk_column fk) @ [CHR 0x22, CHR 0x0A])"

definition has_two_parts :: "jval \<times> jval \<times> fk_info \<Rightarrow> bool" where
  "has_two_parts e = two_parts (fk_references (snd (snd e)))"

text \<open>The entity blocks of the diagram, schemas and tables in sorted order.\<close>

definition entities_text :: "schema_map \<Rightarrow> string" where
  "entities_text org =
     concat (map (\<lambda>s.
       concat (map (\<lambda>t. entity_block s t (table_data org s t)) (sorted_keys (tables_of org s))))
       (sorted_keys org))"

text \<open>
  The relationship view as a document around its relationship lines: the header
  with the timestamp, the opening of the diagram block, the entity blocks, the lines,
  and the closing fence.
\<close>

definition relations_with :: "string list \<Rightarrow> string \<Rightarrow> schema_map \<Rightarrow> string" where
  "relations_with lines timestamp org =
     ''# Relaciones entre Tablas'' @ [CHR 0x0A, CHR 0x0A] @
     ''*Generado el: '' @ timestamp @ ''*'' @ [CHR 0x0A, CHR 0x0A] @
     ''```mermaid'' @ [CHR 0x0A] @ ''erDiagram'' @ [CHR 0x0A] @
     entities_text org @ concat lines @ ''```'' @ [CHR 0x0A]"

section \<open>Example inputs\<close>

definition mk_record ::
  "string \<Rightarrow> string \<Rightarrow> string \<Rightarrow> string \<Rightarrow> string \<Rightarrow> jval \<Rightarrow> jval \<Rightarrow> column_record" where
  "mk_record s t c d n ct r =
     \<lparr>schema = JStr s, table = JStr t, column = JStr c, data_type = JStr d,
      nullable = JStr n, constraint_type = ct, references_table = r\<rparr>"

definition users_id_pk :: column_record where
  "users_id_pk =
     mk_record ''public'' ''users'' ''id'' ''uuid'' ''NOT NULL'' (JStr ''PRIMARY KEY'') JNull"

definition users_id_fk :: column_record where
  "users_id_fk =
     mk_record ''public'' ''users'' ''id'' ''uuid'' ''NOT NULL'' (JStr ''FOREIGN KEY'')
       (JStr ''auth.users'')"

definition users_email_pk :: column_record where
  "users_email_pk =
     mk_record ''public'' ''users'' ''email'' ''text'' ''NULL'' (JStr ''PRIMARY KEY'') JNull"

definition auth_users_id :: column_record where
  "auth_users_id = mk_record ''auth'' ''users'' ''id'' ''uuid'' ''NOT NULL'' JNull JNull"

definition posts_author_fk :: column_record where
  "posts_author_fk =
     mk_record ''public'' ''posts'' ''author'' ''uuid'' ''NULL'' (JStr ''FOREIGN KEY'')
       (JStr ''public.users'')"

definition posts_author_fk_null :: column_record where
  "posts_author_fk_null =
     mk_record ''public'' ''posts'' ''author'' ''uuid'' ''NULL'' (JStr ''FOREIGN KEY'') JNull"

definition posts_editor_fk_bad :: column_record where
  "posts_editor_fk_bad =
     mk_record ''public'' ''posts'' ''editor'' ''uuid'' ''NULL'' (JStr ''FOREIGN KEY'')
       (JStr ''users'')"

text \<open>A second foreign-key record of \<open>public.posts.author\<close>, to another table.\<close>

definition posts_author_fk_auth :: column_record where
  "posts_author_fk_auth = posts_author_fk\<lparr>references_table := JStr ''auth.users''\<rparr>"

text \<open>A record with all seven fields whose schema is the list \<open>['public']\<close>.\<close>

definition list_schema_row :: column_record where
  "list_schema_row = users_id_pk\<lparr>schema := JArr [JStr ''public'']\<rparr>"

text \<open>A foreign-key record whose reference is the number 123.\<close>

definition posts_author_fk_123 :: column_record where
  "posts_author_fk_123 = posts_author_fk\<lparr>references_table := JInt 123\<rparr>"

text \<open>A nullable foreign-key record with a null reference whose schema is null.\<close>

definition null_schema_fk :: column_record where
  "null_schema_fk = posts_author_fk_null\<lparr>schema := JNull\<rparr>"

text \<open>An object without the fields after \<open>schema\<close>, except \<open>column\<close>.\<close>

definition no_table_item :: jval where
  "no_table_item = JObj [(''schema'', JStr ''public''), (''column'', JStr ''id'')]"

text \<open>The map aggregated from the two rows of \<open>public.users.id\<close>.\<close>

definition duplicate_column_map :: schema_map where
  "duplicate_column_map =
     [(JStr ''public'',
       [(JStr ''users'',
         \<lparr>columns =
            [\<lparr>col_name = JStr ''id'', col_type = JStr ''uuid'', col_nullable = False\<rparr>,
             \<lparr>col_name = JStr ''id'', col_type = JStr ''uuid'', col_nullable = False\<rparr>],
          primary_key = JStr ''id'',
          foreign_keys = [\<lparr>fk_column = JStr ''id'', fk_references = JStr ''auth.users''\<rparr>],
          unique_constraints = []\<rparr>)])]"

text \<open>The map aggregated from the two foreign-key rows of \<open>public.posts.author\<close>.\<close>

definition author_twice_map :: schema_map where
  "author_twice_map =
     [(JStr ''public'',
       [(JStr ''posts'',
         \<lparr>columns =
            [\<lparr>col_name = JStr ''author'', col_type = JStr ''uuid'', col_nullable = True\<rparr>,
             \<lparr>col_name = JStr ''author'', col_type = JStr ''uuid'', col_nullable = True\<rparr>],
          primary_key = JNull,
          foreign_keys =
            [\<lparr>fk_column = JStr ''author'', fk_references = JStr ''public.users''\<rparr>,
             \<lparr>fk_column = JStr ''author'', fk_references = JNull\<rparr>],
          unique_constraints = []\<rparr>)])]"

definition stats_example :: schema_map where
  "stats_example = foldl store_record [] [users_id_pk, users_id_fk, auth_users_id, posts_author_fk]"

section \<open>Auxiliary facts\<close>

subsection \<open>Dicts and reading a record\<close>

lemma py_eq_refl [simp]: "py_eq a a"
  by (simp add: py_eq_def)

lemma py_eq_str [simp]: "py_eq (JStr a) (JStr b) \<longleftrightarrow> a = b"
  by (simp add: py_eq_def)

lemma dict_find_Nil [simp]: "dict_find [] k = None"
  by (simp add: dict_find_def)

lemma dict_find_cong: "py_eq k k' \<Longrightarrow> dict_find d k = dict_find d k'"
  by (simp add: dict_find_def py_eq_def)

lemma dict_find_dict_set:
  "dict_find (dict_set k v d) k' = (if py_eq k k' then Some v else dict_find d k')"
  by (induction d) (auto simp: dict_find_def py_eq_def)

lemma keys_dict_set:
  "map (\<lambda>p. norm (fst p)) (dict_set k v d) =
     (if norm k \<in> (\<lambda>p. norm (fst p)) ` set d then map (\<lambda>p. norm (fst p)) d
      else map (\<lambda>p. norm (fst p)) d @ [norm k])"
  by (induction d) (force simp: py_eq_def)+

lemma wf_dict_set: "wf_dict d \<Longrightarrow> wf_dict (dict_set k v d)"
  by (simp add: wf_dict_def keys_dict_set)

lemma dict_find_in: "wf_dict d \<Longrightarrow> (k, v) \<in> set d \<Longrightarrow> dict_find d k = Some v"
proof -
  assume wf: "wf_dict d" and kv: "(k, v) \<in> set d"
  have "map fst (map (\<lambda>(k', v). (norm k', v)) d) = map (\<lambda>p. norm (fst p)) d"
    by (simp add: case_prod_unfold)
  with wf have "distinct (map fst (map (\<lambda>(k', v). (norm k', v)) d))"
    unfolding wf_dict_def by (simp only:)
  moreover from kv have "(norm k, v) \<in> set (map (\<lambda>(k', v). (norm k', v)) d)"
    by force
  ultimately show ?thesis
    unfolding dict_find_def by (rule map_of_is_SomeI)
qed

lemma dict_get_in: "wf_dict d \<Longrightarrow> (k, v) \<in> set d \<Longrightarrow> dict_get dflt d k = v"
  by (simp add: dict_get_def dict_find_in)

lemma wf_distinct_keys: "wf_dict d \<Longrightarrow> distinct (map fst d)"
  unfolding wf_dict_def by (induction d) force+

lemma member_item_of:
  "member [(''schema'', s), (''table'', t), (''column'', c), (''data_type'', d),
     (''nullable'', n), (''constraint_type'', ct), (''references_table'', r)] k =
   (if k = ''schema'' then Some s else if k = ''table'' then Some t
    else if k = ''column'' then Some c else if k = ''data_type'' then Some d
    else if k = ''nullable'' then Some n else if k = ''constraint_type'' then Some ct
    else if k = ''references_table'' then Some r else None)"
  by (simp add: member_def)

lemma read_item_of: "read_item (item_of r) = Inr r"
  by (simp add: item_of_def read_item_def get_field_def member_item_of)

lemma read_items_of: "map read_item (map item_of rs) = map Inr rs"
  by (simp add: read_item_of)

lemma complete_iff:
  "complete (JObj kvs) \<longleftrightarrow>
     member kvs ''schema'' \<noteq> None \<and> member kvs ''table'' \<noteq> None \<and>
     member kvs ''column'' \<noteq> None \<and> member kvs ''data_type'' \<noteq> None \<and>
     member kvs ''nullable'' \<noteq> None \<and> member kvs ''constraint_type'' \<noteq> None \<and>
     member kvs ''references_table'' \<noteq> None"
  by (simp add: complete_def required_fields_def)

lemma read_item_complete:
  assumes "complete it"
  shows "\<exists>r. read_item it = Inr r"
proof -
  from assms obtain kvs where it: "it = JObj kvs"
    by (cases it) (simp_all add: complete_def)
  from assms obtain s t c d n ct r where
    "member kvs ''schema'' = Some s" "member kvs ''table'' = Some t"
    "member kvs ''column'' = Some c" "member kvs ''data_type'' = Some d"
    "member kvs ''nullable'' = Some n" "member kvs ''constraint_type'' = Some ct"
    "member kvs ''references_table'' = Some r"
    unfolding it complete_iff by blast
  then show ?thesis
    by (simp add: it read_item_def get_field_def)
qed

lemma read_item_complete_iff: "complete it \<longleftrightarrow> (\<exists>r. read_item it = Inr r)"
proof
  assume "complete it"
  then show "\<exists>r. read_item it = Inr r" by (rule read_item_complete)
next
  assume "\<exists>r. read_item it = Inr r"
  then obtain r where r: "read_item it = Inr r" ..
  then obtain kvs where it: "it = JObj kvs"
    by (cases it) (simp_all add: read_item_def get_field_def)
  from r show "complete it"
    unfolding it complete_iff
    by (simp add: read_item_def get_field_def split: option.splits)
qed

lemma read_item_missing:
  assumes "\<not> complete (JObj kvs)"
  shows "\<exists>k. first_missing kvs = Some k \<and> read_item (JObj kvs) = Inl (KeyError k)"
  using assms unfolding complete_iff
  by (simp add: first_missing_def required_fields_def read_item_def get_field_def
      split: option.split) (metis option.distinct(1))

lemma first_missing_required: "first_missing kvs = Some k \<Longrightarrow> k \<in> set required_fields"
  by (auto simp: first_missing_def find_Some_iff)

lemma aggregate_loop_records:
  "map read_item items = map Inr rs \<Longrightarrow> list_all keyable rs \<Longrightarrow>
     aggregate_loop org items = Inr (foldl store_record org rs)"
  by (induction items arbitrary: org rs) (auto simp: add_record_def keyable_def)

lemma aggregate_records:
  "map read_item schema_data = map Inr rs \<Longrightarrow> list_all keyable rs \<Longrightarrow>
     aggregate schema_data = Inr (foldl store_record [] rs)"
  by (simp add: aggregate_def aggregate_loop_records)

lemma aggregate_loop_Inr:
  "aggregate_loop org items = Inr org' \<Longrightarrow>
     \<exists>rs. map read_item items = map Inr rs \<and> list_all keyable rs \<and>
          org' = foldl store_record org rs"
proof (induction items arbitrary: org)
  case Nil
  then show ?case by simp
next
  case (Cons it rest)
  from Cons.prems obtain r where r: "read_item it = Inr r"
    by (auto split: sum.splits)
  with Cons.prems have k: "keyable r"
    and loop: "aggregate_loop (store_record org r) rest = Inr org'"
    by (auto simp: add_record_def keyable_def split: sum.splits if_splits)
  from Cons.IH[OF loop] obtain rs where
    "map read_item rest = map Inr rs" "list_all keyable rs"
    "org' = foldl store_record (store_record org r) rs"
    by blast
  with r k have "map read_item (it # rest) = map Inr (r # rs) \<and> list_all keyable (r # rs) \<and>
      org' = foldl store_record org (r # rs)"
    by simp
  then show ?case by blast
qed

lemma aggregate_Inr:
  "aggregate schema_data = Inr org \<Longrightarrow>
     \<exists>rs. map read_item schema_data = map Inr rs \<and> list_all keyable rs \<and>
          org = foldl store_record [] rs"
  unfolding aggregate_def by (rule aggregate_loop_Inr)

subsection \<open>What the aggregation stores\<close>

lemma table_data_find:
  "table_data org s t = (case find_table org s t of None \<Rightarrow> default_table | Some td \<Rightarrow> td)"
  by (simp add: table_data_def tables_of_def dict_get_def find_table_def dict_find_def
      split: option.split)

lemma table_data_cong:
  "py_eq s s' \<Longrightarrow> py_eq t t' \<Longrightarrow> table_data org s t = table_data org s' t'"
  by (simp add: table_data_def tables_of_def dict_get_def dict_find_def py_eq_def)

lemma find_table_store_record:
  "find_table (store_record org r) s t =
     (if py_eq (schema r) s \<and> py_eq (table r) t
      then Some (add_to_table r (table_data org (schema r) (table r)))
      else find_table org s t)"
  by (simp add: store_record_def Let_def find_table_def dict_find_dict_set table_data_def
      tables_of_def dict_get_def dict_find_cong[of "schema r" s] split: option.split)

lemma default_table_rows: "default_table = table_of_rows []"
  by (simp add: default_table_def table_of_rows_def with_constraint_def)

lemma add_to_table_rows: "add_to_table r (table_of_rows rows) = table_of_rows (rows @ [r])"
  by (simp add: add_to_table_def table_of_rows_def with_constraint_def Let_def)

lemma rows_of_snoc:
  "rows_of s t (rs @ [r]) =
     rows_of s t rs @ (if py_eq (schema r) s \<and> py_eq (table r) t then [r] else [])"
  by (simp add: rows_of_def)

lemma find_table_foldl:
  "find_table (foldl store_record [] rs) s t =
     (if rows_of s t rs = [] then None else Some (table_of_rows (rows_of s t rs)))"
proof (induction rs rule: rev_induct)
  case Nil
  show ?case by (simp add: find_table_def rows_of_def dict_find_def)
next
  case (snoc r rs)
  show ?case
  proof (cases "py_eq (schema r) s \<and> py_eq (table r) t")
    case True
    have "table_data (foldl store_record [] rs) s t = table_of_rows (rows_of s t rs)"
      using snoc.IH by (simp add: table_data_find default_table_rows)
    moreover have "table_data (foldl store_record [] rs) (schema r) (table r) =
        table_data (foldl store_record [] rs) s t"
      using True by (intro table_data_cong) simp_all
    ultimately show ?thesis
      using True by (simp add: find_table_store_record rows_of_snoc add_to_table_rows)
  next
    case False
    with snoc.IH show ?thesis
      by (auto simp: find_table_store_record rows_of_snoc)
  qed
qed

lemma table_data_foldl:
  "table_data (foldl store_record [] rs) s t = table_of_rows (rows_of s t rs)"
  by (simp add: table_data_find find_table_foldl default_table_rows)

lemma list_all_dict_set:
  "list_all P d \<Longrightarrow> (\<And>k'. P (k', v)) \<Longrightarrow> list_all P (dict_set k v d)"
  by (induction d) auto

lemma wf_tables_of: "wf_schema_map org \<Longrightarrow> wf_dict (tables_of org s)"
proof (cases "dict_find org s")
  case None
  then show ?thesis by (simp add: tables_of_def dict_get_def wf_dict_def)
next
  case (Some tabs)
  assume "wf_schema_map org"
  moreover from Some have "\<exists>s'. (s', tabs) \<in> set org"
    unfolding dict_find_def by (auto dest!: map_of_SomeD)
  ultimately have "wf_dict tabs"
    by (auto simp: wf_schema_map_def list_all_iff)
  with Some show ?thesis by (simp add: tables_of_def dict_get_def)
qed

lemma wf_store_record: "wf_schema_map org \<Longrightarrow> wf_schema_map (store_record org r)"
  unfolding store_record_def Let_def
  using wf_tables_of[of org "schema r"]
  by (simp add: wf_schema_map_def wf_dict_set list_all_dict_set)

lemma wf_foldl: "wf_schema_map org \<Longrightarrow> wf_schema_map (foldl store_record org rs)"
  by (induction rs arbitrary: org) (simp_all add: wf_store_record)

lemma wf_empty: "wf_schema_map []"
  by (simp add: wf_schema_map_def wf_dict_def)

lemma aggregate_wf: "aggregate schema_data = Inr org \<Longrightarrow> wf_schema_map org"
  using aggregate_Inr[of schema_data org] wf_foldl[OF wf_empty] by auto

subsection \<open>The keys of an aggregated map\<close>

lemma in_table_keys:
  "(s, t) \<in> set (table_keys org) \<longleftrightarrow> (\<exists>tabs. (s, tabs) \<in> set org \<and> t \<in> fst ` set tabs)"
  by (force simp: table_keys_def)

lemma dict_find_SomeD: "dict_find d k = Some v \<Longrightarrow> \<exists>k'. (k', v) \<in> set d \<and> norm k' = norm k"
  unfolding dict_find_def by (force dest!: map_of_SomeD)

lemma find_table_keys:
  assumes "wf_schema_map org"
  shows "find_table org s t \<noteq> None \<longleftrightarrow>
     (norm s, norm t) \<in> norm_pair ` set (table_keys org)"
proof
  assume "find_table org s t \<noteq> None"
  then obtain tabs td where tabs: "dict_find org s = Some tabs" and td: "dict_find tabs t = Some td"
    by (auto simp: find_table_def split: option.splits)
  from dict_find_SomeD[OF tabs] obtain s' where s': "(s', tabs) \<in> set org" "norm s' = norm s"
    by blast
  from dict_find_SomeD[OF td] obtain t' where t': "(t', td) \<in> set tabs" "norm t' = norm t"
    by blast
  from s'(1) t'(1) have "(s', t') \<in> set (table_keys org)"
    by (force simp: in_table_keys)
  then have "norm_pair (s', t') \<in> norm_pair ` set (table_keys org)"
    by (rule imageI)
  with s'(2) t'(2) show "(norm s, norm t) \<in> norm_pair ` set (table_keys org)"
    by (simp add: norm_pair_def)
next
  assume "(norm s, norm t) \<in> norm_pair ` set (table_keys org)"
  then obtain s' t' where k: "(s', t') \<in> set (table_keys org)" "norm s' = norm s" "norm t' = norm t"
    by (auto simp: norm_pair_def)
  from k(1) obtain tabs td where tabs: "(s', tabs) \<in> set org" and td: "(t', td) \<in> set tabs"
    by (auto simp: in_table_keys)
  from assms tabs have wft: "wf_dict tabs"
    by (auto simp: wf_schema_map_def list_all_iff)
  from assms have "wf_dict org" by (simp add: wf_schema_map_def)
  from dict_find_in[OF this tabs] k(2) have "dict_find org s = Some tabs"
    by (simp add: dict_find_def)
  moreover from dict_find_in[OF wft td] k(3) have "dict_find tabs t = Some td"
    by (simp add: dict_find_def)
  ultimately show "find_table org s t \<noteq> None"
    by (simp add: find_table_def)
qed

lemma distinct_table_keys:
  assumes "wf_schema_map org"
  shows "distinct (map norm_pair (table_keys org))"
  using assms
proof (induction org)
  case Nil
  show ?case by (simp add: table_keys_def)
next
  case (Cons p org)
  obtain s tabs where p: "p = (s, tabs)" by (cases p)
  from Cons.prems have wf: "wf_schema_map org" and dt: "distinct (map (\<lambda>q. norm (fst q)) tabs)"
    and s: "norm s \<notin> (\<lambda>q. norm (fst q)) ` set org"
    by (auto simp: wf_schema_map_def wf_dict_def p)
  have "map norm_pair (map (\<lambda>(t, td). (s, t)) tabs) = map (\<lambda>q. (norm s, norm (fst q))) tabs"
    by (simp add: norm_pair_def case_prod_unfold)
  moreover have "distinct (map (\<lambda>q. (norm s, norm (fst q))) tabs)"
    using dt by (simp add: distinct_map inj_on_def)
  ultimately have d1: "distinct (map norm_pair (map (\<lambda>(t, td). (s, t)) tabs))"
    by (simp only:)
  have d2: "set (map norm_pair (map (\<lambda>(t, td). (s, t)) tabs)) \<inter>
      set (map norm_pair (table_keys org)) = {}"
  proof -
    have "fst q \<noteq> norm s" if "q \<in> set (map norm_pair (table_keys org))" for q
      using that s by (force simp: norm_pair_def in_table_keys)
    moreover have "fst q = norm s" if "q \<in> set (map norm_pair (map (\<lambda>(t, td). (s, t)) tabs))" for q
      using that by (force simp: norm_pair_def)
    ultimately show ?thesis by blast
  qed
  have "table_keys (p # org) = map (\<lambda>(t, td). (s, t)) tabs @ table_keys org"
    by (simp add: table_keys_def p)
  then show ?case
    using d1 d2 Cons.IH[OF wf] by (simp only: map_append distinct_append)
qed

lemma norm_keys_foldl:
  "norm_pair ` set (table_keys (foldl store_record [] rs)) =
     (\<lambda>r. (norm (schema r), norm (table r))) ` set rs"
proof -
  have wf: "wf_schema_map (foldl store_record [] rs)"
    by (rule wf_foldl[OF wf_empty])
  have "(a, b) \<in> norm_pair ` set (table_keys (foldl store_record [] rs)) \<longleftrightarrow>
      (a, b) \<in> (\<lambda>r. (norm (schema r), norm (table r))) ` set rs" for a b
  proof
    assume "(a, b) \<in> norm_pair ` set (table_keys (foldl store_record [] rs))"
    then obtain s t where st: "a = norm s" "b = norm t"
      "(norm s, norm t) \<in> norm_pair ` set (table_keys (foldl store_record [] rs))"
      by (auto simp: norm_pair_def)
    from st(3) have "rows_of s t rs \<noteq> []"
      using find_table_keys[OF wf, of s t] by (simp add: find_table_foldl split: if_splits)
    then show "(a, b) \<in> (\<lambda>r. (norm (schema r), norm (table r))) ` set rs"
      by (force simp: st rows_of_def filter_empty_conv py_eq_def)
  next
    assume "(a, b) \<in> (\<lambda>r. (norm (schema r), norm (table r))) ` set rs"
    then obtain r where r: "r \<in> set rs" "a = norm (schema r)" "b = norm (table r)"
      by auto
    then have "rows_of (schema r) (table r) rs \<noteq> []"
      by (force simp: rows_of_def filter_empty_conv)
    then have "find_table (foldl store_record [] rs) (schema r) (table r) \<noteq> None"
      by (simp add: find_table_foldl)
    with r show "(a, b) \<in> norm_pair ` set (table_keys (foldl store_record [] rs))"
      using find_table_keys[OF wf, of "schema r" "table r"] by simp
  qed
  then show ?thesis by (auto simp del: image_iff)
qed

lemma set_keys_dict_set:
  "fst ` set (dict_set k v d) \<subseteq> insert k (fst ` set d)"
  by (induction d) (force split: if_splits)+

lemma schema_keys_foldl:
  "s \<in> fst ` set (foldl store_record [] rs) \<Longrightarrow> s \<in> schema ` set rs"
proof (induction rs rule: rev_induct)
  case Nil
  then show ?case by simp
next
  case (snoc r rs)
  have "fst ` set (store_record (foldl store_record [] rs) r) \<subseteq>
      insert (schema r) (fst ` set (foldl store_record [] rs))"
    unfolding store_record_def Let_def by (rule set_keys_dict_set)
  with snoc.prems have "s = schema r \<or> s \<in> fst ` set (foldl store_record [] rs)"
    by auto
  with snoc.IH show ?case by auto
qed

lemma tables_keys_store_record:
  "t \<in> fst ` set (tables_of (store_record org r) s) \<Longrightarrow>
     t = table r \<or> t \<in> fst ` set (tables_of org s)"
proof -
  assume a: "t \<in> fst ` set (tables_of (store_record org r) s)"
  show ?thesis
  proof (cases "py_eq (schema r) s")
    case True
    then have "tables_of (store_record org r) s =
        dict_set (table r) (add_to_table r (dict_get default_table (tables_of org (schema r)) (table r)))
          (tables_of org (schema r))"
      by (simp add: store_record_def Let_def tables_of_def dict_get_def dict_find_dict_set)
    moreover have "tables_of org (schema r) = tables_of org s"
      using True by (simp add: tables_of_def dict_get_def dict_find_cong)
    ultimately show ?thesis
      using a set_keys_dict_set[of "table r" _ "tables_of org s"] by auto
  next
    case False
    then have "tables_of (store_record org r) s = tables_of org s"
      by (simp add: store_record_def Let_def tables_of_def dict_get_def dict_find_dict_set)
    with a show ?thesis by simp
  qed
qed

lemma table_keys_foldl:
  "t \<in> fst ` set (tables_of (foldl store_record [] rs) s) \<Longrightarrow> t \<in> table ` set rs"
proof (induction rs rule: rev_induct)
  case Nil
  then show ?case by (simp add: tables_of_def dict_get_def)
next
  case (snoc r rs)
  from snoc.prems have "t = table r \<or> t \<in> fst ` set (tables_of (foldl store_record [] rs) s)"
    using tables_keys_store_record by simp
  with snoc.IH show ?case by auto
qed

subsection \<open>Sorting keys\<close>

lemma not_str_and_num: "xs \<noteq> [] \<Longrightarrow> list_all is_str xs \<Longrightarrow> \<not> list_all is_num xs"
  by (cases xs; cases "hd xs") auto

lemma py_sorted_ok: "sortable (map fst d) \<Longrightarrow> py_sorted (map fst d) = Inr (sorted_keys d)"
proof -
  assume s: "sortable (map fst d)"
  show ?thesis
  proof (cases "length d < 2")
    case True
    then show ?thesis by (simp add: py_sorted_def sorted_keys_def)
  next
    case False
    then have ne: "map fst d \<noteq> []" by auto
    from s False have "list_all is_str (map fst d) \<or> list_all is_num (map fst d)"
      by (simp add: sortable_def)
    then show ?thesis
      using False not_str_and_num[OF ne]
      by (auto simp: py_sorted_def sorted_keys_def)
  qed
qed

lemma py_sorted_fail: "\<not> sortable ks \<Longrightarrow> py_sorted ks = Inl TypeError"
  by (auto simp: sortable_def py_sorted_def)

lemma py_sorted_error: "py_sorted ks = Inl e \<Longrightarrow> e = TypeError"
  by (auto simp: py_sorted_def split: if_splits)

lemma set_sorted_keys: "set (sorted_keys d) = fst ` set d"
  by (simp add: sorted_keys_def)

lemma sortable_tables:
  "sortable_map org \<Longrightarrow> s \<in> set (sorted_keys org) \<Longrightarrow> sortable (map fst (tables_of org s))"
  by (auto simp: sortable_map_def set_sorted_keys list_all_iff)

lemma unsortable_cases:
  assumes "\<not> sortable_map org"
  shows "\<not> sortable (map fst org) \<or>
     (sortable (map fst org) \<and>
      (\<exists>s \<in> set (sorted_keys org). \<not> sortable (map fst (tables_of org s))))"
  using assms by (auto simp: sortable_map_def list_all_iff set_sorted_keys)

lemma sortable_foldl:
  assumes "\<forall>r \<in> set rs. is_str (schema r) \<and> is_str (table r)"
  shows "sortable_map (foldl store_record [] rs)"
proof -
  have "list_all is_str (map fst (foldl store_record [] rs))"
    using assms schema_keys_foldl by (fastforce simp: list_all_iff)
  moreover have "list_all is_str (map fst (tables_of (foldl store_record [] rs) s))" for s
    using assms table_keys_foldl by (fastforce simp: list_all_iff)
  ultimately show ?thesis
    by (simp add: sortable_map_def sortable_def list_all_iff)
qed

subsection \<open>Loops that may raise\<close>

lemma concat_results_ok:
  "(\<And>x. x \<in> set xs \<Longrightarrow> f x = Inr (g x)) \<Longrightarrow> concat_results f xs = Inr (concat (map g xs))"
  by (induction xs) auto

lemma concat_results_fail:
  assumes "x \<in> set xs" "f x = Inl e" "\<And>y e'. y \<in> set xs \<Longrightarrow> f y = Inl e' \<Longrightarrow> e' = e"
  shows "concat_results f xs = Inl e"
  using assms
proof (induction xs)
  case Nil
  then show ?case by simp
next
  case (Cons y ys)
  show ?case
  proof (cases "f y")
    case (Inl e')
    with Cons.prems(3)[of y e'] show ?thesis by simp
  next
    case (Inr s)
    with Cons.prems have x: "x \<in> set ys" by auto
    have "concat_results f ys = Inl e"
      by (rule Cons.IH[OF x Cons.prems(2)]) (use Cons.prems(3) in auto)
    with Inr show ?thesis by simp
  qed
qed

lemma concat_results_error:
  "concat_results f xs = Inl e \<Longrightarrow> \<exists>x \<in> set xs. f x = Inl e"
  by (induction xs) (auto split: sum.splits)

subsection \<open>Splitting a reference\<close>

lemma split_acc_shape:
  "split_acc c cur s =
     (cur @ takeWhile (\<lambda>x. x \<noteq> c) s) #
     (case dropWhile (\<lambda>x. x \<noteq> c) s of [] \<Rightarrow> [] | x # rest \<Rightarrow> split_acc c [] rest)"
  by (induction s arbitrary: cur) auto

lemma split_acc_ne: "split_acc c cur s \<noteq> []"
  by (induction s arbitrary: cur) auto

lemma split_acc_single: "split_acc c cur s = [y] \<Longrightarrow> y = cur @ s"
proof -
  assume a: "split_acc c cur s = [y]"
  have ne: "split_acc c [] rest \<noteq> []" for rest
    by (rule split_acc_ne)
  from a have "y = cur @ takeWhile (\<lambda>x. x \<noteq> c) s" and "dropWhile (\<lambda>x. x \<noteq> c) s = []"
    using ne by (subst (asm) split_acc_shape, simp split: list.splits)+
  then show ?thesis
    using takeWhile_dropWhile_id[of "\<lambda>x. x \<noteq> c" s] by simp
qed

lemma split_dot_two:
  assumes "split_dot ref = [a, b]"
  shows "a = takeWhile (\<lambda>x. x \<noteq> CHR ''.'') ref \<and> b = tl (dropWhile (\<lambda>x. x \<noteq> CHR ''.'') ref)"
proof -
  from assms have sh: "(takeWhile (\<lambda>x. x \<noteq> CHR ''.'') ref) #
      (case dropWhile (\<lambda>x. x \<noteq> CHR ''.'') ref of [] \<Rightarrow> []
       | x # rest \<Rightarrow> split_acc (CHR ''.'') [] rest) = [a, b]"
    unfolding split_dot_def by (subst (asm) split_acc_shape) simp
  then obtain x rest where d: "dropWhile (\<lambda>x. x \<noteq> CHR ''.'') ref = x # rest"
    and r: "split_acc (CHR ''.'') [] rest = [b]"
    by (auto split: list.splits)
  from split_acc_single[OF r] d sh show ?thesis by simp
qed

lemma split_acc_length:
  "length (split_acc c cur s) = Suc (length (filter (\<lambda>x. x = c) s))"
  by (induction s arbitrary: cur) auto

lemma two_parts_simps [simp]:
  "two_parts (JStr ref) = (length (split_dot ref) = 2)"
  "two_parts JNull = False" "two_parts (JBool b) = False" "two_parts (JInt i) = False"
  "two_parts (JArr xs) = False" "two_parts (JObj kvs) = False"
  by (auto simp: two_parts_def split_dot_def split_acc_length)

subsection \<open>The relationship lines\<close>

lemma relation_lines_char:
  "relation_lines s t fk =
     (if plain_reference (fk_references fk)
      then Inr (if two_parts (fk_references fk) then [relation_line (s, t, fk)] else [])
      else Inl AttributeError)"
proof (cases "fk_references fk")
  case (JStr ref)
  show ?thesis
  proof (cases "ref = []")
    case True
    with JStr show ?thesis
      by (simp add: relation_lines_def plain_reference_def split_dot_def)
  next
    case False
    show ?thesis
    proof (cases "length (split_dot ref) = 2")
      case True
      then obtain a b where ab: "split_dot ref = [a, b]"
        by (cases "split_dot ref"; cases "tl (split_dot ref)") auto
      from split_dot_two[OF ab] JStr have "a = ref_schema_of fk" "b = ref_table_of fk"
        by (simp_all add: ref_schema_of_def ref_table_of_def)
      with JStr False ab show ?thesis
        by (simp add: relation_lines_def plain_reference_def relation_line_def relation_text_def
            nl_def)
    next
      case False
      with JStr \<open>ref \<noteq> []\<close> show ?thesis
        by (auto simp: relation_lines_def plain_reference_def split: list.splits)
    qed
  qed
qed (simp_all add: relation_lines_def plain_reference_def)

lemma relations_table_ok:
  assumes "list_all (\<lambda>fk. plain_reference (fk_references fk)) (foreign_keys td)"
  shows "relations_table s t td =
     Inr (map relation_line (filter has_two_parts (map (\<lambda>fk. (s, t, fk)) (foreign_keys td))))"
proof -
  have "list_all (\<lambda>fk. plain_reference (fk_references fk)) fks \<Longrightarrow>
      concat_results (relation_lines s t) fks =
        Inr (map relation_line (filter has_two_parts (map (\<lambda>fk. (s, t, fk)) fks)))" for fks
    by (induction fks) (simp_all add: relation_lines_char has_two_parts_def)
  with assms show ?thesis by (simp add: relations_table_def)
qed

lemma relation_lines_error: "relation_lines s t fk = Inl e \<Longrightarrow> e = AttributeError"
  by (simp add: relation_lines_char split: if_splits)

lemma relations_table_fail:
  assumes "\<not> list_all (\<lambda>fk. plain_reference (fk_references fk)) (foreign_keys td)"
  shows "relations_table s t td = Inl AttributeError"
proof -
  from assms obtain fk where fk: "fk \<in> set (foreign_keys td)" "\<not> plain_reference (fk_references fk)"
    by (auto simp: list_all_iff)
  show ?thesis
    unfolding relations_table_def
  proof (rule concat_results_fail[OF fk(1)])
    show "relation_lines s t fk = Inl AttributeError"
      using fk(2) by (simp add: relation_lines_char)
    show "\<And>y e'. y \<in> set (foreign_keys td) \<Longrightarrow> relation_lines s t y = Inl e' \<Longrightarrow> e' = AttributeError"
      by (rule relation_lines_error)
  qed
qed

lemma relations_table_error: "relations_table s t td = Inl e \<Longrightarrow> e = AttributeError"
  unfolding relations_table_def
  by (auto dest!: concat_results_error relation_lines_error)

text \<open>The foreign-key entries of one schema, and whether line 148 can fail on them.\<close>

lemma plain_references_iff:
  "plain_references org \<longleftrightarrow>
     (\<forall>s \<in> set (sorted_keys org). \<forall>t \<in> set (sorted_keys (tables_of org s)).
        list_all (\<lambda>fk. plain_reference (fk_references fk)) (foreign_keys (table_data org s t)))"
  by (auto simp: plain_references_def fk_entries_def list_all_iff)

lemma relations_schema_ok:
  assumes "sortable (map fst (tables_of org s))"
    and "\<forall>t \<in> set (sorted_keys (tables_of org s)).
        list_all (\<lambda>fk. plain_reference (fk_references fk)) (foreign_keys (table_data org s t))"
  shows "relations_schema org s =
     Inr (map relation_line (filter has_two_parts
       (concat (map (\<lambda>t. map (\<lambda>fk. (s, t, fk)) (foreign_keys (table_data org s t)))
         (sorted_keys (tables_of org s))))))"
proof -
  have "concat_results (\<lambda>t. relations_table s t (table_data org s t))
      (sorted_keys (tables_of org s)) =
      Inr (concat (map (\<lambda>t. map relation_line (filter has_two_parts
        (map (\<lambda>fk. (s, t, fk)) (foreign_keys (table_data org s t)))))
        (sorted_keys (tables_of org s))))"
    by (rule concat_results_ok) (use assms(2) in \<open>simp add: relations_table_ok\<close>)
  then show ?thesis
    by (simp add: relations_schema_def py_sorted_ok[OF assms(1)] map_concat filter_concat o_def)
qed

lemma relations_schema_fail:
  assumes "sortable (map fst (tables_of org s))"
    and "t \<in> set (sorted_keys (tables_of org s))"
    and "\<not> list_all (\<lambda>fk. plain_reference (fk_references fk)) (foreign_keys (table_data org s t))"
  shows "relations_schema org s = Inl AttributeError"
proof -
  have "concat_results (\<lambda>t. relations_table s t (table_data org s t))
      (sorted_keys (tables_of org s)) = Inl AttributeError"
  proof (rule concat_results_fail[OF assms(2)])
    show "relations_table s t (table_data org s t) = Inl AttributeError"
      using assms(3) by (rule relations_table_fail)
    show "\<And>y e'. y \<in> set (sorted_keys (tables_of org s)) \<Longrightarrow>
        relations_table s y (table_data org s y) = Inl e' \<Longrightarrow> e' = AttributeError"
      by (rule relations_table_error)
  qed
  then show ?thesis
    by (simp add: relations_schema_def py_sorted_ok[OF assms(1)])
qed

lemma relations_schema_error:
  "sortable (map fst (tables_of org s)) \<Longrightarrow> relations_schema org s = Inl e \<Longrightarrow> e = AttributeError"
  by (auto simp: relations_schema_def py_sorted_ok dest!: concat_results_error relations_table_error)

lemma all_relations_ok:
  assumes "sortable_map org" "plain_references org"
  shows "all_relations org = Inr (map relation_line (filter has_two_parts (fk_entries org)))"
proof -
  have s: "sortable (map fst org)"
    using assms(1) by (simp add: sortable_map_def)
  have "concat_results (relations_schema org) (sorted_keys org) =
      Inr (concat (map (\<lambda>s. map relation_line (filter has_two_parts
        (concat (map (\<lambda>t. map (\<lambda>fk. (s, t, fk)) (foreign_keys (table_data org s t)))
          (sorted_keys (tables_of org s)))))) (sorted_keys org)))"
  proof (rule concat_results_ok)
    fix x assume x: "x \<in> set (sorted_keys org)"
    show "relations_schema org x =
        Inr (map relation_line (filter has_two_parts
          (concat (map (\<lambda>t. map (\<lambda>fk. (x, t, fk)) (foreign_keys (table_data org x t)))
            (sorted_keys (tables_of org x))))))"
      using assms(2) x
      by (intro relations_schema_ok sortable_tables[OF assms(1) x])
         (simp add: plain_references_iff)
  qed
  then show ?thesis
    by (simp add: all_relations_def py_sorted_ok[OF s] fk_entries_def map_concat
        filter_concat o_def)
qed

lemma all_relations_fail:
  assumes "sortable_map org" "\<not> plain_references org"
  shows "all_relations org = Inl AttributeError"
proof -
  have s: "sortable (map fst org)"
    using assms(1) by (simp add: sortable_map_def)
  from assms(2) obtain x t where x: "x \<in> set (sorted_keys org)"
    and t: "t \<in> set (sorted_keys (tables_of org x))"
    and np: "\<not> list_all (\<lambda>fk. plain_reference (fk_references fk)) (foreign_keys (table_data org x t))"
    by (auto simp: plain_references_iff)
  have "concat_results (relations_schema org) (sorted_keys org) = Inl AttributeError"
  proof (rule concat_results_fail[OF x])
    show "relations_schema org x = Inl AttributeError"
      by (rule relations_schema_fail[OF sortable_tables[OF assms(1) x] t np])
    show "\<And>y e'. y \<in> set (sorted_keys org) \<Longrightarrow> relations_schema org y = Inl e' \<Longrightarrow>
        e' = AttributeError"
      using sortable_tables[OF assms(1)] relations_schema_error by blast
  qed
  then show ?thesis
    by (simp add: all_relations_def py_sorted_ok[OF s])
qed

subsection \<open>The entity blocks\<close>

lemma entities_schema_ok:
  assumes "sortable (map fst (tables_of org s))"
  shows "entities_schema org s =
     Inr (concat (map (\<lambda>t. entity_block s t (table_data org s t))
       (sorted_keys (tables_of org s))))"
  by (simp add: entities_schema_def py_sorted_ok[OF assms])

lemma all_entities_ok:
  assumes "sortable_map org"
  shows "all_entities org = Inr (entities_text org)"
proof -
  have s: "sortable (map fst org)"
    using assms by (simp add: sortable_map_def)
  have "concat_results (entities_schema org) (sorted_keys org) = Inr (entities_text org)"
    unfolding entities_text_def
    by (rule concat_results_ok) (simp add: entities_schema_ok sortable_tables[OF assms])
  then show ?thesis
    by (simp add: all_entities_def py_sorted_ok[OF s])
qed


lemma render_relations_ok:
  assumes "sortable_map org" "plain_references org"
  shows "render_relations timestamp org =
     Inr (relations_with (map relation_line (filter has_two_parts (fk_entries org))) timestamp org)"
  by (simp add: render_relations_def all_entities_ok[OF assms(1)] all_relations_ok[OF assms]
      relations_with_def relations_header_def relations_footer_def nl_def)

lemma render_relations_attr:
  assumes "sortable_map org" "\<not> plain_references org"
  shows "render_relations timestamp org = Inl AttributeError"
  by (simp add: render_relations_def all_entities_ok[OF assms(1)] all_relations_fail[OF assms])


subsection \<open>The markdown summary\<close>

lemma summary_schema_ok:
  assumes "sortable (map fst (tables_of org s))"
  shows "summary_schema org s =
     Inr (''## Esquema: '' @ py_str s @ nl @ nl @
       ''Contiene '' @ str_nat (length (tables_of org s)) @ '' tabla(s):'' @ nl @ nl @
       concat (map (\<lambda>t. summary_table t (table_data org s t)) (sorted_keys (tables_of org s))) @
       nl)"
  by (simp add: summary_schema_def py_sorted_ok[OF assms] sorted_keys_def)

lemma summary_rows_foldl:
  "concat (map (summary_row (table_data (foldl store_record [] rs) s t))
     (columns (table_data (foldl store_record [] rs) s t))) =
   concat (map (\<lambda>r. row_with (if nullable r = JStr ''NULL'' then ''S'' @ [CHR 0xC3, CHR 0xAD] else ''No'')
       (labels_of (foldl store_record [] rs) r) r) (rows_of s t rs))"
proof -
  let ?org = "foldl store_record [] rs"
  have cols: "columns (table_data ?org s t) = map mk_column (rows_of s t rs)"
    by (simp add: table_data_foldl table_of_rows_def)
  have "summary_row (table_data ?org s t) (mk_column r) =
      row_with (if nullable r = JStr ''NULL'' then ''S'' @ [CHR 0xC3, CHR 0xAD] else ''No'')
        (labels_of ?org r) r" if "r \<in> set (rows_of s t rs)" for r
  proof -
    from that have "py_eq (schema r) s" "py_eq (table r) t"
      by (simp_all add: rows_of_def)
    then have "table_data ?org (schema r) (table r) = table_data ?org s t"
      by (rule table_data_cong)
    then show ?thesis
      by (simp add: summary_row_def row_with_def labels_of_def nullable_text_def mk_column_def
          i_acute_def nl_def)
  qed
  then show ?thesis
    unfolding cols by (simp add: o_def cong: map_cong)
qed

lemma render_summary_ok:
  assumes "sortable_map (foldl store_record [] rs)"
  shows "render_summary timestamp (foldl store_record [] rs) =
     Inr (summary_with
       (\<lambda>r. row_with (if nullable r = JStr ''NULL'' then ''S'' @ [CHR 0xC3, CHR 0xAD] else ''No'')
          (labels_of (foldl store_record [] rs) r) r)
       timestamp (foldl store_record [] rs) rs)"
proof -
  let ?org = "foldl store_record [] rs"
  let ?row = "\<lambda>r. row_with (if nullable r = JStr ''NULL'' then ''S'' @ [CHR 0xC3, CHR 0xAD] else ''No'')
          (labels_of ?org r) r"
  have s: "sortable (map fst ?org)"
    using assms by (simp add: sortable_map_def)
  have tab: "summary_table t (table_data ?org s t) =
      ''### Tabla: '' @ py_str t @ [CHR 0x0A, CHR 0x0A] @
      ''#### Columnas'' @ [CHR 0x0A, CHR 0x0A] @
      ''| Nombre | Tipo | Nullable | Restricciones |'' @ [CHR 0x0A] @
      ''|--------|------|----------|---------------|'' @ [CHR 0x0A] @
      concat (map ?row (rows_of s t rs)) @ [CHR 0x0A]" for s t
    unfolding summary_table_def summary_rows_foldl by (simp add: nl_def)
  have "concat_results (summary_schema ?org) (sorted_keys ?org) =
      Inr (concat (map (\<lambda>s.
       ''## Esquema: '' @ py_str s @ [CHR 0x0A, CHR 0x0A] @
       ''Contiene '' @ str_nat (length (tables_of ?org s)) @ '' tabla(s):'' @
       [CHR 0x0A, CHR 0x0A] @
       concat (map (\<lambda>t.
         ''### Tabla: '' @ py_str t @ [CHR 0x0A, CHR 0x0A] @
         ''#### Columnas'' @ [CHR 0x0A, CHR 0x0A] @
         ''| Nombre | Tipo | Nullable | Restricciones |'' @ [CHR 0x0A] @
         ''|--------|------|----------|---------------|'' @ [CHR 0x0A] @
         concat (map ?row (rows_of s t rs)) @ [CHR 0x0A])
         (sorted_keys (tables_of ?org s))) @
       [CHR 0x0A])
       (sorted_keys ?org)))"
    by (rule concat_results_ok)
       (simp add: summary_schema_ok sortable_tables[OF assms] tab nl_def)
  then show ?thesis
    by (simp add: render_summary_def py_sorted_ok[OF s] summary_with_def summary_header_def
        nl_def)
qed

lemma render_summary_fail:
  assumes "\<not> sortable_map org"
  shows "render_summary timestamp org = Inl TypeError"
  using unsortable_cases[OF assms]
proof
  assume "\<not> sortable (map fst org)"
  then show ?thesis by (simp add: render_summary_def py_sorted_fail)
next
  assume "sortable (map fst org) \<and>
      (\<exists>s \<in> set (sorted_keys org). \<not> sortable (map fst (tables_of org s)))"
  then obtain s where s: "sortable (map fst org)" "s \<in> set (sorted_keys org)"
    "\<not> sortable (map fst (tables_of org s))" by blast
  have "concat_results (summary_schema org) (sorted_keys org) = Inl TypeError"
  proof (rule concat_results_fail[OF s(2)])
    show "summary_schema org s = Inl TypeError"
      using s(3) by (simp add: summary_schema_def py_sorted_fail)
    show "\<And>y e. y \<in> set (sorted_keys org) \<Longrightarrow> summary_schema org y = Inl e \<Longrightarrow> e = TypeError"
      by (auto simp: summary_schema_def split: sum.splits dest: py_sorted_error)
  qed
  then show ?thesis by (simp add: render_summary_def py_sorted_ok[OF s(1)])
qed

subsection \<open>The constraint labels of a column\<close>

lemma find_first_match:
  assumes "\<forall>x \<in> set before. \<not> P x" "P y"
  shows "find P (before @ y # after) = Some y"
  using assms by (induction before) auto

lemma find_null_reference:
  assumes "\<forall>x \<in> set xs. py_eq (fk_column x) c \<longrightarrow> fk_references x = JNull"
    and "py_eq (fk_column y) c" and "fk_references y = JNull"
  shows "\<exists>fk. find (\<lambda>fk. py_eq (fk_column fk) c) (xs @ y # ys) = Some fk \<and>
           fk_references fk = JNull"
  using assms(1)
proof (induction xs)
  case Nil
  show ?case using assms(2,3) by simp
next
  case (Cons x xs)
  then show ?case by (cases "py_eq (fk_column x) c") auto
qed

lemma constraint_labels_fk:
  assumes "find (\<lambda>fk. py_eq (fk_column fk) (col_name col)) (foreign_keys td) = Some fk"
  shows "\<exists>ks. set ks \<subseteq> {''PRIMARY KEY'', ''UNIQUE''} \<and>
           constraint_labels td col = ks @ [fk_label fk]"
proof -
  let ?ks = "(if py_eq (col_name col) (primary_key td) then [''PRIMARY KEY''] else []) @
     (if list_ex (py_eq (col_name col)) (unique_constraints td) then [''UNIQUE''] else [])"
  have "set ?ks \<subseteq> {''PRIMARY KEY'', ''UNIQUE''}" by auto
  moreover have "constraint_labels td col = ?ks @ [fk_label fk]"
    using assms by (simp add: constraint_labels_def)
  ultimately show ?thesis by blast
qed

subsection \<open>The statistics\<close>

lemma sum_list_concat_map: "sum_list (concat xss) = sum_list (map sum_list xss)"
  for xss :: "nat list list"
  by (induction xss) simp_all

lemma dict_set_new: "norm k \<notin> (\<lambda>p. norm (fst p)) ` set d \<Longrightarrow> dict_set k v d = d @ [(k, v)]"
  by (induction d) (auto simp: py_eq_def)

lemma count_columns_sum:
  "count_columns org s ts n = n + sum_list (map (\<lambda>t. length (columns (table_data org s t))) ts)"
  by (induction ts arbitrary: n) simp_all

lemma count_totals_sum:
  "count_totals org ss (a, b) =
     (a + sum_list (map (\<lambda>s. length (tables_of org s)) ss),
      b + sum_list (map (\<lambda>s. sum_list (map (\<lambda>t. length (columns (table_data org s t)))
            (map fst (tables_of org s)))) ss))"
  by (induction ss arbitrary: a b) (simp_all add: count_columns_sum Let_def)

lemma schema_details_distinct:
  "distinct (map norm ss) \<Longrightarrow> norm ` set ss \<inter> (\<lambda>p. norm (fst p)) ` set d = {} \<Longrightarrow>
     schema_details org ss d = d @ map (\<lambda>s. (s, mk_schema_stat org s)) ss"
proof (induction ss arbitrary: d)
  case Nil
  show ?case by simp
next
  case (Cons s ss)
  from Cons.prems have new: "norm s \<notin> (\<lambda>p. norm (fst p)) ` set d" by auto
  have "norm ` set ss \<inter> (\<lambda>p. norm (fst p)) ` set (d @ [(s, mk_schema_stat org s)]) = {}"
    using Cons.prems by auto
  with Cons.IH[of "d @ [(s, mk_schema_stat org s)]"] Cons.prems(1)
  show ?case by (simp add: dict_set_new[OF new])
qed

lemma schema_details_wf:
  "wf_schema_map org \<Longrightarrow>
     schema_details org (map fst org) [] = map (\<lambda>s. (s, mk_schema_stat org s)) (map fst org)"
  using schema_details_distinct[of "map fst org" "[]" org]
  by (simp add: wf_schema_map_def wf_dict_def o_def)

lemma tables_of_in:
  "wf_schema_map org \<Longrightarrow> (s, tabs) \<in> set org \<Longrightarrow> tables_of org s = tabs"
  by (simp add: wf_schema_map_def tables_of_def dict_get_in)

lemma table_data_in:
  assumes "wf_schema_map org" "(s, tabs) \<in> set org" "(t, td) \<in> set tabs"
  shows "table_data org s t = td"
proof -
  from assms(1,2) have "wf_dict tabs"
    by (auto simp: wf_schema_map_def list_all_iff)
  with assms show ?thesis
    by (simp add: table_data_def tables_of_in dict_get_in)
qed

lemma mk_schema_stat_in:
  assumes "wf_schema_map org" "(s, tabs) \<in> set org"
  shows "mk_schema_stat org s =
     \<lparr>ss_tables = length tabs,
      ss_table_details = map (\<lambda>(t, td). mk_table_stat t td) tabs\<rparr>"
proof -
  have "map (\<lambda>t. mk_table_stat t (table_data org s t)) (map fst tabs) =
      map (\<lambda>(t, td). mk_table_stat t td) tabs"
    using table_data_in[OF assms] by (auto simp: map_eq_conv)
  then show ?thesis
    by (simp add: mk_schema_stat_def Let_def tables_of_in[OF assms])
qed

lemma make_stats_timestamp:
  "make_stats timestamp org = (make_stats [] org)\<lparr>st_timestamp := timestamp\<rparr>"
  by (simp add: make_stats_def Let_def)

subsection \<open>The outcomes of a run\<close>

lemma analyze_unsortable:
  assumes "aggregate schema_data = Inr org" "\<not> sortable_map org"
  shows "analyze timestamp schema_data = failed TypeError None"
  using assms by (simp add: analyze_def render_summary_fail)

lemma analyze_attribute_error:
  assumes "aggregate schema_data = Inr (foldl store_record [] rs)"
    and "sortable_map (foldl store_record [] rs)"
    and "\<not> plain_references (foldl store_record [] rs)"
  shows "analyze timestamp schema_data =
     failed AttributeError
       (Some (summary_with
          (\<lambda>r. row_with (if nullable r = JStr ''NULL'' then ''S'' @ [CHR 0xC3, CHR 0xAD] else ''No'')
             (labels_of (foldl store_record [] rs) r) r)
          timestamp (foldl store_record [] rs) rs))"
  using assms(1)
  by (simp add: analyze_def render_summary_ok[OF assms(2)] render_relations_attr[OF assms(2,3)])

lemma analyze_success:
  assumes "aggregate schema_data = Inr (foldl store_record [] rs)"
    and "sortable_map (foldl store_record [] rs)"
    and "plain_references (foldl store_record [] rs)"
  shows "analyze timestamp schema_data =
     \<lparr>exit_code = 0, raised = None,
      summary_file = Some (summary_with
          (\<lambda>r. row_with (if nullable r = JStr ''NULL'' then ''S'' @ [CHR 0xC3, CHR 0xAD] else ''No'')
             (labels_of (foldl store_record [] rs) r) r)
          timestamp (foldl store_record [] rs) rs),
      relations_file = Some (relations_with
          (map relation_line (filter has_two_parts (fk_entries (foldl store_record [] rs))))
          timestamp (foldl store_record [] rs)),
      stats_file = Some (make_stats timestamp (foldl store_record [] rs))\<rparr>"
  using assms(1)
  by (simp add: analyze_def render_summary_ok[OF assms(2)] render_relations_ok[OF assms(2,3)])

lemma summary_file_sortable:
  assumes "aggregate schema_data = Inr (foldl store_record [] rs)"
    and "sortable_map (foldl store_record [] rs)"
  shows "summary_file (analyze timestamp schema_data) =
     Some (summary_with
          (\<lambda>r. row_with (if nullable r = JStr ''NULL'' then ''S'' @ [CHR 0xC3, CHR 0xAD] else ''No'')
             (labels_of (foldl store_record [] rs) r) r)
          timestamp (foldl store_record [] rs) rs)"
proof (cases "plain_references (foldl store_record [] rs)")
  case True
  show ?thesis by (simp add: analyze_success[OF assms True])
next
  case False
  show ?thesis by (simp add: analyze_attribute_error[OF assms False] failed_def)
qed


subsection \<open>Evaluating the examples\<close>

lemmas record_eval =
  mk_record_def users_id_pk_def users_id_fk_def users_email_pk_def auth_users_id_def
  posts_author_fk_def posts_author_fk_null_def posts_editor_fk_bad_def list_schema_row_def
  posts_author_fk_123_def null_schema_fk_def posts_author_fk_auth_def

lemmas store_eval =
  store_record_def tables_of_def table_data_def dict_get_def dict_find_def add_to_table_def
  default_table_def mk_column_def mk_fk_def py_eq_def

lemmas aggregate_eval = aggregate_def read_item_of add_record_def store_eval

lemma keyable_examples:
  "keyable users_id_pk" "keyable users_id_fk" "keyable users_email_pk" "keyable auth_users_id"
  "keyable posts_author_fk" "keyable posts_author_fk_null" "keyable posts_editor_fk_bad"
  "keyable posts_author_fk_123" "keyable null_schema_fk" "keyable posts_author_fk_auth"
  by (simp_all add: keyable_def record_eval)

lemma stats_example_value:
  "stats_example =
     [(JStr ''public'',
       [(JStr ''users'',
         \<lparr>columns =
            [\<lparr>col_name = JStr ''id'', col_type = JStr ''uuid'', col_nullable = False\<rparr>,
             \<lparr>col_name = JStr ''id'', col_type = JStr ''uuid'', col_nullable = False\<rparr>],
          primary_key = JStr ''id'',
          foreign_keys = [\<lparr>fk_column = JStr ''id'', fk_references = JStr ''auth.users''\<rparr>],
          unique_constraints = []\<rparr>),
        (JStr ''posts'',
         \<lparr>columns =
            [\<lparr>col_name = JStr ''author'', col_type = JStr ''uuid'', col_nullable = True\<rparr>],
          primary_key = JNull,
          foreign_keys =
            [\<lparr>fk_column = JStr ''author'', fk_references = JStr ''public.users''\<rparr>],
          unique_constraints = []\<rparr>)]),
      (JStr ''auth'',
       [(JStr ''users'',
         \<lparr>columns =
            [\<lparr>col_name = JStr ''id'', col_type = JStr ''uuid'', col_nullable = False\<rparr>],
          primary_key = JNull, foreign_keys = [], unique_constraints = []\<rparr>)])]"
  by (simp add: stats_example_def record_eval store_eval)

subsection \<open>Elements the aggregation accepts\<close>

lemma accepted_iff: "accepted it \<longleftrightarrow> (\<exists>r. read_item it = Inr r \<and> keyable r)"
proof (cases it)
  case (JObj kvs)
  show ?thesis
  proof (cases "complete it")
    case True
    then obtain r where r: "read_item it = Inr r"
      using read_item_complete by blast
    then have "member kvs ''schema'' = Some (schema r)" "member kvs ''table'' = Some (table r)"
      unfolding JObj
      by (auto simp: read_item_def get_field_def split: option.splits)
    with True r show ?thesis
      by (simp add: accepted_def JObj keyable_def)
  next
    case False
    then have "\<not> accepted it" by (simp add: accepted_def JObj)
    with False show ?thesis by (simp add: read_item_complete_iff)
  qed
qed (simp_all add: accepted_def read_item_def get_field_def)

lemma records_exist:
  "list_all accepted schema_data \<Longrightarrow>
     \<exists>rs. map read_item schema_data = map Inr rs \<and> list_all keyable rs"
proof (induction schema_data)
  case Nil
  show ?case by simp
next
  case (Cons it rest)
  then obtain r rs where "read_item it = Inr r" "keyable r"
    "map read_item rest = map Inr rs" "list_all keyable rs"
    by (auto simp: accepted_iff)
  then have "map read_item (it # rest) = map Inr (r # rs) \<and> list_all keyable (r # rs)"
    by simp
  then show ?case by blast
qed

lemma aggregate_loop_prefix:
  "list_all accepted before \<Longrightarrow>
     \<exists>org'. aggregate_loop org (before @ rest) = aggregate_loop org' rest"
proof (induction before arbitrary: org)
  case Nil
  show ?case by auto
next
  case (Cons it before)
  from Cons.prems have b: "list_all accepted before" and "accepted it" by simp_all
  then obtain r where "read_item it = Inr r" "keyable r"
    unfolding accepted_iff by blast
  then have "aggregate_loop org ((it # before) @ rest) =
      aggregate_loop (store_record org r) (before @ rest)"
    by (simp add: add_record_def keyable_def)
  with Cons.IH[OF b] show ?case by simp
qed

lemma aggregate_first_failure:
  assumes "list_all accepted before" "read_item it = Inl e"
  shows "aggregate (before @ it # after) = Inl e"
proof -
  from aggregate_loop_prefix[OF assms(1)] obtain org' where
    "aggregate_loop [] (before @ it # after) = aggregate_loop org' (it # after)"
    by blast
  with assms(2) show ?thesis by (simp add: aggregate_def)
qed

lemma aggregate_first_unhashable:
  assumes "list_all accepted before" "complete it" "\<not> accepted it"
  shows "aggregate (before @ it # after) = Inl TypeError"
proof -
  from assms(2) obtain r where r: "read_item it = Inr r"
    using read_item_complete by blast
  with assms(3) have "\<not> keyable r" by (auto simp: accepted_iff)
  then have "add_record org' r = Inl TypeError" for org'
    by (auto simp: add_record_def keyable_def)
  moreover from aggregate_loop_prefix[OF assms(1)] obtain org' where
    "aggregate_loop [] (before @ it # after) = aggregate_loop org' (it # after)"
    by blast
  ultimately show ?thesis using r by (simp add: aggregate_def)
qed

lemma aggregate_loop_rejected:
  "\<not> list_all accepted schema_data \<Longrightarrow> \<exists>e. aggregate_loop org schema_data = Inl e"
proof (induction schema_data arbitrary: org)
  case Nil
  then show ?case by simp
next
  case (Cons it rest)
  show ?case
  proof (cases "accepted it")
    case True
    then obtain r where "read_item it = Inr r" "keyable r"
      by (auto simp: accepted_iff)
    moreover from True Cons.prems have "\<not> list_all accepted rest" by simp
    ultimately show ?thesis
      using Cons.IH by (simp add: add_record_def keyable_def)
  next
    case False
    show ?thesis
    proof (cases "read_item it")
      case (Inl e)
      then show ?thesis by simp
    next
      case (Inr r)
      with False have "\<not> keyable r" by (auto simp: accepted_iff)
      with Inr show ?thesis by (auto simp: add_record_def keyable_def)
    qed
  qed
qed

lemma accepted_item_of: "accepted (item_of r) \<longleftrightarrow> keyable r"
  by (simp add: accepted_iff read_item_of)

lemma complete_item_of: "complete (item_of r)"
  by (simp add: read_item_complete_iff read_item_of)

lemma aggregate_items:
  "list_all keyable rs \<Longrightarrow> aggregate (map item_of rs) = Inr (foldl store_record [] rs)"
  by (rule aggregate_records) (simp_all add: read_item_of o_def)

subsection \<open>Foreign keys of a table and their entries in the diagram\<close>

lemma foreign_keys_foldl:
  "foreign_keys (table_data (foldl store_record [] rs) s t) =
     map mk_fk (with_constraint ''FOREIGN KEY'' (rows_of s t rs))"
  by (simp add: table_data_foldl table_of_rows_def)

lemma labels_of_first:
  assumes "py_eq (schema r) s" "py_eq (table r) t" "py_eq (column r) c"
    and "find (\<lambda>fk. py_eq (fk_column fk) c) (foreign_keys (table_data org s t)) = Some fk"
  shows "\<exists>ks. set ks \<subseteq> {''PRIMARY KEY'', ''UNIQUE''} \<and>
     labels_of org r = ks @ [''FK '' @ [CHR 0xE2, CHR 0x86, CHR 0x92] @ '' '' @ py_str (fk_references fk)]"
proof -
  have td: "table_data org (schema r) (table r) = table_data org s t"
    using assms(1,2) by (rule table_data_cong)
  have "find (\<lambda>fk. py_eq (fk_column fk) (col_name (mk_column r))) (foreign_keys (table_data org s t)) =
      Some fk"
    using assms(3,4) by (simp add: mk_column_def py_eq_def)
  from constraint_labels_fk[OF this] show ?thesis
    by (simp add: labels_of_def td fk_label_def arrow_def)
qed

lemma filter_concat_one:
  assumes "distinct xs" "x \<in> set xs" "\<And>y. y \<in> set xs \<Longrightarrow> y \<noteq> x \<Longrightarrow> filter P (f y) = []"
  shows "filter P (concat (map f xs)) = filter P (f x)"
  using assms
proof (induction xs)
  case Nil
  then show ?case by simp
next
  case (Cons a xs)
  show ?case
  proof (cases "a = x")
    case True
    with Cons.prems(1) have "\<forall>y \<in> set xs. y \<noteq> x" by auto
    with Cons.prems(3) have "\<forall>y \<in> set xs. filter P (f y) = []" by auto
    then have "filter P (concat (map f xs)) = []"
      by (induction xs) auto
    with True show ?thesis by simp
  next
    case False
    with Cons.prems have "filter P (f a) = []" "x \<in> set xs" "distinct xs" by auto
    with Cons.IH Cons.prems(3) show ?thesis by simp
  qed
qed

lemma distinct_sorted_keys: "wf_dict d \<Longrightarrow> distinct (sorted_keys d)"
  by (simp add: sorted_keys_def wf_distinct_keys)

lemma fk_entries_table:
  assumes "wf_schema_map org" "(s, t) \<in> set (table_keys org)"
  shows "filter (\<lambda>e. fst e = s \<and> fst (snd e) = t) (fk_entries org) =
     map (\<lambda>fk. (s, t, fk)) (foreign_keys (table_data org s t))"
proof -
  let ?P = "\<lambda>e :: jval \<times> jval \<times> fk_info. fst e = s \<and> fst (snd e) = t"
  let ?row = "\<lambda>s' t'. map (\<lambda>fk. (s', t', fk)) (foreign_keys (table_data org s' t'))"
  let ?sch = "\<lambda>s'. concat (map (?row s') (sorted_keys (tables_of org s')))"
  from assms(2) obtain tabs where tabs: "(s, tabs) \<in> set org" "t \<in> fst ` set tabs"
    by (auto simp: in_table_keys)
  have tof: "tables_of org s = tabs"
    using assms(1) tabs(1) by (rule tables_of_in)
  have s: "s \<in> set (sorted_keys org)"
    using tabs(1) by (force simp: set_sorted_keys)
  have t: "t \<in> set (sorted_keys (tables_of org s))"
    using tabs(2) by (simp add: set_sorted_keys tof)
  have ds: "distinct (sorted_keys org)"
    using assms(1) by (simp add: distinct_sorted_keys wf_schema_map_def)
  have dt: "distinct (sorted_keys (tables_of org s))"
    using wf_tables_of[OF assms(1)] by (rule distinct_sorted_keys)
  have "filter ?P (fk_entries org) = filter ?P (?sch s)"
    unfolding fk_entries_def
    by (rule filter_concat_one[OF ds s]) (auto simp: filter_empty_conv)
  also have "\<dots> = filter ?P (?row s t)"
    by (rule filter_concat_one[OF dt t]) (auto simp: filter_empty_conv)
  also have "\<dots> = ?row s t"
    by (simp add: filter_map o_def)
  finally show ?thesis .
qed

subsection \<open>The timestamp in the documents\<close>

lemma summary_with_timestamp:
  "summary_with row_text timestamp org rs =
     (''# Resumen del Esquema de Base de Datos'' @ [CHR 0x0A, CHR 0x0A] @ ''*Generado el: '') @
     timestamp @ drop (length (''# Resumen del Esquema de Base de Datos'' @ [CHR 0x0A, CHR 0x0A] @
       ''*Generado el: '')) (summary_with row_text [] org rs)"
  by (simp add: summary_with_def)

lemma relations_with_timestamp:
  "relations_with lines timestamp org =
     (''# Relaciones entre Tablas'' @ [CHR 0x0A, CHR 0x0A] @ ''*Generado el: '') @
     timestamp @ drop (length (''# Relaciones entre Tablas'' @ [CHR 0x0A, CHR 0x0A] @
       ''*Generado el: '')) (relations_with lines [] org)"
  by (simp add: relations_with_def)

subsection \<open>The example maps\<close>

lemmas map_eval =
  sortable_map_def sortable_def sorted_keys_def fk_entries_def plain_references_def
  plain_reference_def has_two_parts_def

lemma str_nat_1 [simp]: "str_nat (Suc 0) = ''1''"
  by (simp add: str_nat.simps digit_char_def)

lemma users_example:
  "foldl store_record [] [users_id_pk, users_email_pk] =
     [(JStr ''public'',
       [(JStr ''users'',
         \<lparr>columns =
            [\<lparr>col_name = JStr ''id'', col_type = JStr ''uuid'', col_nullable = False\<rparr>,
             \<lparr>col_name = JStr ''email'', col_type = JStr ''text'', col_nullable = True\<rparr>],
          primary_key = JStr ''email'', foreign_keys = [], unique_constraints = []\<rparr>)])]"
  by (simp add: store_eval record_eval)



lemma null_schema_example:
  "foldl store_record [] [null_schema_fk, users_id_pk] =
     [(JNull,
       [(JStr ''posts'',
         \<lparr>columns =
            [\<lparr>col_name = JStr ''author'', col_type = JStr ''uuid'', col_nullable = True\<rparr>],
          primary_key = JNull,
          foreign_keys = [\<lparr>fk_column = JStr ''author'', fk_references = JNull\<rparr>],
          unique_constraints = []\<rparr>)]),
      (JStr ''public'',
       [(JStr ''users'',
         \<lparr>columns =
            [\<lparr>col_name = JStr ''id'', col_type = JStr ''uuid'', col_nullable = False\<rparr>],
          primary_key = JStr ''id'', foreign_keys = [], unique_constraints = []\<rparr>)])]"
  by (simp add: store_eval record_eval)

lemma editor_author_example:
  "foldl store_record [] [posts_editor_fk_bad, posts_author_fk_null, posts_author_fk] =
     [(JStr ''public'',
       [(JStr ''posts'',
         \<lparr>columns =
            [\<lparr>col_name = JStr ''editor'', col_type = JStr ''uuid'', col_nullable = True\<rparr>,
             \<lparr>col_name = JStr ''author'', col_type = JStr ''uuid'', col_nullable = True\<rparr>,
             \<lparr>col_name = JStr ''author'', col_type = JStr ''uuid'', col_nullable = True\<rparr>],
          primary_key = JNull,
          foreign_keys =
            [\<lparr>fk_column = JStr ''editor'', fk_references = JStr ''users''\<rparr>,
             \<lparr>fk_column = JStr ''author'', fk_references = JNull\<rparr>,
             \<lparr>fk_column = JStr ''author'', fk_references = JStr ''public.users''\<rparr>],
          unique_constraints = []\<rparr>)])]"
  by (simp add: store_eval record_eval)

lemma author_twice_example:
  "foldl store_record [] [posts_author_fk, posts_author_fk_null] = author_twice_map"
  by (simp add: store_eval record_eval author_twice_map_def)

lemma two_references_example:
  "foldl store_record [] [posts_editor_fk_bad, posts_author_fk, posts_author_fk_auth] =
     [(JStr ''public'',
       [(JStr ''posts'',
         \<lparr>columns =
            [\<lparr>col_name = JStr ''editor'', col_type = JStr ''uuid'', col_nullable = True\<rparr>,
             \<lparr>col_name = JStr ''author'', col_type = JStr ''uuid'', col_nullable = True\<rparr>,
             \<lparr>col_name = JStr ''author'', col_type = JStr ''uuid'', col_nullable = True\<rparr>],
          primary_key = JNull,
          foreign_keys =
            [\<lparr>fk_column = JStr ''editor'', fk_references = JStr ''users''\<rparr>,
             \<lparr>fk_column = JStr ''author'', fk_references = JStr ''public.users''\<rparr>,
             \<lparr>fk_column = JStr ''author'', fk_references = JStr ''auth.users''\<rparr>],
          unique_constraints = []\<rparr>)])]"
  by (simp add: store_eval record_eval)

section \<open>Properties\<close>

text \<open>
  C1 (amended). When every element of the input is read as a record and the schema
  and table values can be dict keys, the column list of a table holds one entry per
  input row of that (schema, table), in input order, so a column name occurs in it as
  often as rows share that (schema, table, column); the foreign-key list and the unique
  list of the table hold one entry per row of the table with constraint type
  FOREIGN KEY and UNIQUE.
\<close>

theorem columns_one_per_row:
  assumes "map read_item schema_data = map Inr rs"
    and "list_all keyable rs"
  shows "\<exists>org. aggregate schema_data = Inr org \<and>
           (\<forall>s t. columns (table_data org s t) = map mk_column (rows_of s t rs) \<and>
                  foreign_keys (table_data org s t) =
                    map mk_fk (with_constraint ''FOREIGN KEY'' (rows_of s t rs)) \<and>
                  unique_constraints (table_data org s t) =
                    map column (with_constraint ''UNIQUE'' (rows_of s t rs)) \<and>
                  (\<forall>c. length (filter (\<lambda>col. col_name col = c) (columns (table_data org s t))) =
                       length (filter (\<lambda>r. column r = c) (rows_of s t rs))))"
proof -
  have "length (filter (\<lambda>col. col_name col = c) (map mk_column rows)) =
      length (filter (\<lambda>r. column r = c) rows)" for c rows
    by (induction rows) (simp_all add: mk_column_def)
  then show ?thesis
    by (simp add: aggregate_records[OF assms] table_data_foldl table_of_rows_def)
qed

theorem columns_one_per_row_witness:
  "map read_item (map item_of [users_id_pk, users_id_fk]) = map Inr [users_id_pk, users_id_fk] \<and>
   list_all keyable [users_id_pk, users_id_fk] \<and>
   (\<exists>org. aggregate (map item_of [users_id_pk, users_id_fk]) = Inr org \<and>
      map col_name (columns (table_data org (JStr ''public'') (JStr ''users''))) =
        [JStr ''id'', JStr ''id''] \<and>
      map fk_references (foreign_keys (table_data org (JStr ''public'') (JStr ''users''))) =
        [JStr ''auth.users''])"
proof -
  have h: "map read_item (map item_of [users_id_pk, users_id_fk]) =
      map Inr [users_id_pk, users_id_fk]"
    by (rule read_items_of)
  have k: "list_all keyable [users_id_pk, users_id_fk]"
    by (simp add: keyable_examples)
  obtain org where org: "aggregate (map item_of [users_id_pk, users_id_fk]) = Inr org"
    and c: "columns (table_data org (JStr ''public'') (JStr ''users'')) =
        map mk_column (rows_of (JStr ''public'') (JStr ''users'') [users_id_pk, users_id_fk])"
      "foreign_keys (table_data org (JStr ''public'') (JStr ''users'')) =
        map mk_fk (with_constraint ''FOREIGN KEY''
          (rows_of (JStr ''public'') (JStr ''users'') [users_id_pk, users_id_fk]))"
    using columns_one_per_row[OF h k] by blast
  have n: "map col_name (columns (table_data org (JStr ''public'') (JStr ''users''))) =
        [JStr ''id'', JStr ''id'']"
    unfolding c by (simp add: rows_of_def record_eval mk_column_def)
  have f: "map fk_references (foreign_keys (table_data org (JStr ''public'') (JStr ''users''))) =
        [JStr ''auth.users'']"
    unfolding c by (simp add: rows_of_def with_constraint_def record_eval mk_fk_def)
  show ?thesis
    by (intro conjI exI[of _ org]) (fact h k org n f)+
qed

text \<open>
  C1 as stated fails: two rows for the same column, one PRIMARY KEY and one
  FOREIGN KEY, give two column entries of the same name.
\<close>

theorem column_once_counterexample:
  "aggregate (map item_of [users_id_pk, users_id_fk]) = Inr duplicate_column_map \<and>
   \<not> distinct (map col_name
        (columns (table_data duplicate_column_map (JStr ''public'') (JStr ''users''))))"
  by (simp add: aggregate_eval record_eval duplicate_column_map_def)

text \<open>
  C2 (amended). The aggregation returns a map exactly when every element of the input
  is an object with the seven fields whose schema and table values can be dict keys
  (null, booleans, numbers, strings); otherwise it raises and the run exits with status
  1 before any file is written. When the first element that is not accepted is an
  object that lacks a required field, the exception is \<open>KeyError\<close> for the first
  field, in reading order, that it lacks (the spec's MalformedInput). When it has all
  seven fields but its schema or table is a list or an object, the exception is
  \<open>TypeError\<close> (line 66): having all required fields does not keep a record from
  raising.
\<close>

theorem missing_field_fails:
  "(list_all accepted schema_data \<longrightarrow> (\<exists>org. aggregate schema_data = Inr org)) \<and>
   (\<not> list_all accepted schema_data \<longrightarrow>
      (\<exists>e. aggregate schema_data = Inl e \<and> analyze timestamp schema_data = failed e None)) \<and>
   (\<forall>before kvs after k.
      schema_data = before @ JObj kvs # after \<and> list_all accepted before \<and>
      first_missing kvs = Some k \<longrightarrow>
        k \<in> set required_fields \<and> aggregate schema_data = Inl (KeyError k) \<and>
        analyze timestamp schema_data = failed (KeyError k) None) \<and>
   (\<forall>before it after.
      schema_data = before @ it # after \<and> list_all accepted before \<and> complete it \<and>
      \<not> accepted it \<longrightarrow>
        aggregate schema_data = Inl TypeError \<and>
        analyze timestamp schema_data = failed TypeError None)"
proof (intro conjI impI allI)
  assume "list_all accepted schema_data"
  then obtain rs where "map read_item schema_data = map Inr rs" "list_all keyable rs"
    using records_exist by blast
  then show "\<exists>org. aggregate schema_data = Inr org"
    by (simp add: aggregate_records)
next
  assume "\<not> list_all accepted schema_data"
  then obtain e where "aggregate schema_data = Inl e"
    unfolding aggregate_def using aggregate_loop_rejected by blast
  then show "\<exists>e. aggregate schema_data = Inl e \<and> analyze timestamp schema_data = failed e None"
    by (simp add: analyze_def)
next
  fix before kvs after k
  assume a: "schema_data = before @ JObj kvs # after \<and> list_all accepted before \<and>
      first_missing kvs = Some k"
  then have "\<not> complete (JObj kvs)"
    by (auto simp: first_missing_def complete_def find_Some_iff list_all_iff)
  from read_item_missing[OF this] a have "read_item (JObj kvs) = Inl (KeyError k)"
    by simp
  with a have agg: "aggregate schema_data = Inl (KeyError k)"
    by (simp add: aggregate_first_failure)
  from a have "first_missing kvs = Some k" by simp
  then show "k \<in> set required_fields" by (rule first_missing_required)
  from agg show "aggregate schema_data = Inl (KeyError k)" .
  from agg show "analyze timestamp schema_data = failed (KeyError k) None"
    by (simp add: analyze_def)
next
  fix before it after
  assume a: "schema_data = before @ it # after \<and> list_all accepted before \<and> complete it \<and>
      \<not> accepted it"
  then have agg: "aggregate schema_data = Inl TypeError"
    by (simp add: aggregate_first_unhashable)
  then show "aggregate schema_data = Inl TypeError" .
  from agg show "analyze timestamp schema_data = failed TypeError None"
    by (simp add: analyze_def)
qed

theorem missing_field_fails_witness:
  "list_all accepted [item_of users_id_pk] \<and>
   aggregate [item_of users_id_pk] =
     Inr [(JStr ''public'',
           [(JStr ''users'',
             \<lparr>columns =
                [\<lparr>col_name = JStr ''id'', col_type = JStr ''uuid'', col_nullable = False\<rparr>],
              primary_key = JStr ''id'', foreign_keys = [], unique_constraints = []\<rparr>)])] \<and>
   \<not> list_all accepted [item_of users_id_pk, no_table_item] \<and>
   first_missing [(''schema'', JStr ''public''), (''column'', JStr ''id'')] = Some ''table'' \<and>
   aggregate [item_of users_id_pk, no_table_item] = Inl (KeyError ''table'') \<and>
   analyze ''2024-01-01 00:00:00'' [item_of users_id_pk, no_table_item] =
     \<lparr>exit_code = 1, raised = Some (KeyError ''table''), summary_file = None,
      relations_file = None, stats_file = None\<rparr> \<and>
   complete (item_of list_schema_row) \<and> \<not> accepted (item_of list_schema_row) \<and>
   aggregate [item_of users_id_pk, item_of list_schema_row] = Inl TypeError"
proof -
  note t1 = missing_field_fails[of "[item_of users_id_pk]" "''2024-01-01 00:00:00''"]
  note t2 = missing_field_fails[of "[item_of users_id_pk, no_table_item]" "''2024-01-01 00:00:00''"]
  note t3 = missing_field_fails[of "[item_of users_id_pk, item_of list_schema_row]"
      "''2024-01-01 00:00:00''"]
  have a1: "list_all accepted [item_of users_id_pk]"
    by (simp add: accepted_item_of keyable_examples)
  have v1: "aggregate [item_of users_id_pk] =
     Inr [(JStr ''public'',
           [(JStr ''users'',
             \<lparr>columns =
                [\<lparr>col_name = JStr ''id'', col_type = JStr ''uuid'', col_nullable = False\<rparr>],
              primary_key = JStr ''id'', foreign_keys = [], unique_constraints = []\<rparr>)])]"
    by (simp add: aggregate_eval record_eval)
  have n2: "\<not> list_all accepted [item_of users_id_pk, no_table_item]"
    by (simp add: accepted_def no_table_item_def complete_iff member_def)
  have f2: "first_missing [(''schema'', JStr ''public''), (''column'', JStr ''id'')] = Some ''table''"
    by (simp add: first_missing_def required_fields_def member_def)
  have d2: "[item_of users_id_pk, no_table_item] =
      [item_of users_id_pk] @ JObj [(''schema'', JStr ''public''), (''column'', JStr ''id'')] # []"
    by (simp add: no_table_item_def)
  from t2 d2 a1 f2 have r2: "aggregate [item_of users_id_pk, no_table_item] = Inl (KeyError ''table'')"
    "analyze ''2024-01-01 00:00:00'' [item_of users_id_pk, no_table_item] =
      failed (KeyError ''table'') None"
    by blast+
  have c3: "complete (item_of list_schema_row)" by (rule complete_item_of)
  have n3: "\<not> accepted (item_of list_schema_row)"
    by (simp add: accepted_item_of keyable_def record_eval)
  have d3: "[item_of users_id_pk, item_of list_schema_row] =
      [item_of users_id_pk] @ item_of list_schema_row # []"
    by simp
  from t3 d3 a1 c3 n3 have r3: "aggregate [item_of users_id_pk, item_of list_schema_row] = Inl TypeError"
    by blast
  from t1 a1 have "\<exists>org. aggregate [item_of users_id_pk] = Inr org" by blast
  with a1 v1 n2 f2 r2 c3 n3 r3 show ?thesis
    by (simp add: failed_def)
qed

text \<open>
  C2 as stated fails: a record with all seven fields whose schema is the list
  \<open>['public']\<close> makes the aggregation raise \<open>TypeError\<close>, and the run exits with
  status 1 without writing a file.
\<close>

theorem complete_record_raises_counterexample:
  "complete (item_of list_schema_row) \<and>
   aggregate [item_of list_schema_row] = Inl TypeError \<and>
   analyze ''2024-01-01 00:00:00'' [item_of list_schema_row] =
     \<lparr>exit_code = 1, raised = Some TypeError, summary_file = None, relations_file = None,
      stats_file = None\<rparr>"
  by (simp add: complete_item_of aggregate_def read_item_of add_record_def record_eval
      analyze_def failed_def)




text \<open>
  C4. When the records of the input are read and one of them, \<open>r\<close>, has constraint
  type PRIMARY KEY, and no later record of the same table has it, the primary key
  stored for the table of \<open>r\<close> is the column name of \<open>r\<close>, whatever the records
  before it are: earlier PRIMARY KEY rows of the table are overwritten, without an
  error and without deduplication. (Schema and table values are dict keys: they must
  be hashable, and two of them name the same table when Python holds them equal.)
\<close>

theorem primary_key_last_write_wins:
  assumes "map read_item schema_data = map Inr (before @ r # after)"
    and "list_all keyable (before @ r # after)"
    and "constraint_type r = JStr ''PRIMARY KEY''"
    and "\<forall>r' \<in> set after. py_eq (schema r') (schema r) \<and> py_eq (table r') (table r) \<longrightarrow>
           constraint_type r' \<noteq> JStr ''PRIMARY KEY''"
  shows "\<exists>org. aggregate schema_data = Inr org \<and>
           primary_key (table_data org (schema r) (table r)) = column r"
proof -
  let ?rows = "rows_of (schema r) (table r)"
  have "with_constraint ''PRIMARY KEY'' (?rows after) = []"
    using assms(4) by (auto simp: with_constraint_def rows_of_def filter_empty_conv)
  then have "with_constraint ''PRIMARY KEY'' (?rows (before @ r # after)) =
      with_constraint ''PRIMARY KEY'' (?rows before) @ [r]"
    using assms(3) by (simp add: with_constraint_def rows_of_def)
  then have "primary_key (table_of_rows (?rows (before @ r # after))) = column r"
    by (simp add: table_of_rows_def)
  then have "primary_key (table_data (foldl store_record [] (before @ r # after))
      (schema r) (table r)) = column r"
    by (simp only: table_data_foldl)
  with aggregate_records[OF assms(1,2)] show ?thesis
    by (intro exI conjI)
qed

theorem primary_key_last_write_wins_witness:
  "map read_item (map item_of [users_id_pk, users_email_pk, users_id_fk]) =
     map Inr ([users_id_pk] @ users_email_pk # [users_id_fk]) \<and>
   list_all keyable ([users_id_pk] @ users_email_pk # [users_id_fk]) \<and>
   constraint_type users_email_pk = JStr ''PRIMARY KEY'' \<and>
   (\<exists>org. aggregate (map item_of [users_id_pk, users_email_pk, users_id_fk]) = Inr org \<and>
      primary_key (table_data org (JStr ''public'') (JStr ''users'')) = JStr ''email'')"
proof -
  have h: "map read_item (map item_of [users_id_pk, users_email_pk, users_id_fk]) =
     map Inr ([users_id_pk] @ users_email_pk # [users_id_fk])"
    by (simp add: read_item_of)
  have k: "list_all keyable ([users_id_pk] @ users_email_pk # [users_id_fk])"
    by (simp add: keyable_examples)
  have c: "constraint_type users_email_pk = JStr ''PRIMARY KEY''"
    by (simp add: record_eval)
  have a: "\<forall>r' \<in> set [users_id_fk]. py_eq (schema r') (schema users_email_pk) \<and>
      py_eq (table r') (table users_email_pk) \<longrightarrow> constraint_type r' \<noteq> JStr ''PRIMARY KEY''"
    by (simp add: record_eval)
  show ?thesis
    using h k c primary_key_last_write_wins[OF h k c a] by (simp add: record_eval)
qed

text \<open>
  C5. For a map as Python holds it (no key twice), the statistics report the number
  of schemas, for each schema its number of tables and for each table its number of
  columns, whether it has a primary key, and its numbers of foreign keys and of unique
  constraints; the total table count is the sum of the per-schema table counts and the
  total column count is the sum of the per-table column counts.
\<close>

theorem statistics_counts:
  assumes "wf_schema_map org"
  shows "st_schemas (make_stats timestamp org) = length org \<and>
         st_schema_details (make_stats timestamp org) =
           map (\<lambda>(s, tabs).
             (s, \<lparr>ss_tables = length tabs,
                  ss_table_details =
                    map (\<lambda>(t, td).
                      \<lparr>ts_name = t,
                       ts_columns = length (columns td),
                       ts_has_primary_key = (primary_key td \<noteq> JNull),
                       ts_foreign_keys = length (foreign_keys td),
                       ts_unique_constraints = length (unique_constraints td)\<rparr>) tabs\<rparr>)) org \<and>
         st_tables (make_stats timestamp org) =
           sum_list (map (\<lambda>(s, d). ss_tables d) (st_schema_details (make_stats timestamp org))) \<and>
         st_columns (make_stats timestamp org) =
           sum_list (map ts_columns
             (concat (map (\<lambda>(s, d). ss_table_details d)
               (st_schema_details (make_stats timestamp org)))))"
proof -
  have det: "st_schema_details (make_stats timestamp org) =
      map (\<lambda>s. (s, mk_schema_stat org s)) (map fst org)"
    by (simp add: make_stats_def Let_def schema_details_wf[OF assms])
  have pairs: "map (\<lambda>s. (s, mk_schema_stat org s)) (map fst org) =
      map (\<lambda>(s, tabs).
        (s, \<lparr>ss_tables = length tabs,
             ss_table_details = map (\<lambda>(t, td). mk_table_stat t td) tabs\<rparr>)) org"
    using mk_schema_stat_in[OF assms] by (auto simp: map_eq_conv)
  have tabs: "st_tables (make_stats timestamp org) =
      sum_list (map (\<lambda>(s, d). ss_tables d) (st_schema_details (make_stats timestamp org)))"
    unfolding det
    by (simp add: make_stats_def Let_def count_totals_sum o_def mk_schema_stat_def)
  have "sum_list (map ts_columns (ss_table_details (mk_schema_stat org s))) =
      sum_list (map (\<lambda>t. length (columns (table_data org s t))) (map fst (tables_of org s)))"
    for s
    by (simp add: mk_schema_stat_def Let_def o_def mk_table_stat_def)
  then have cols: "st_columns (make_stats timestamp org) =
      sum_list (map ts_columns (concat (map (\<lambda>(s, d). ss_table_details d)
        (st_schema_details (make_stats timestamp org)))))"
    unfolding det
    by (simp add: make_stats_def Let_def count_totals_sum o_def map_concat sum_list_concat_map)
  have "st_schemas (make_stats timestamp org) = length org"
    by (simp add: make_stats_def Let_def)
  with det pairs tabs cols show ?thesis
    by (simp add: mk_table_stat_def)
qed

theorem statistics_counts_witness:
  "wf_schema_map stats_example \<and>
   st_tables (make_stats ''2024-01-01 00:00:00'' stats_example) = 3 \<and>
   sum_list (map (\<lambda>(s, d). ss_tables d)
     (st_schema_details (make_stats ''2024-01-01 00:00:00'' stats_example))) = 3 \<and>
   st_columns (make_stats ''2024-01-01 00:00:00'' stats_example) = 4 \<and>
   sum_list (map ts_columns (concat (map (\<lambda>(s, d). ss_table_details d)
     (st_schema_details (make_stats ''2024-01-01 00:00:00'' stats_example))))) = 4"
proof -
  have wf: "wf_schema_map stats_example"
    unfolding stats_example_def by (rule wf_foldl[OF wf_empty])
  note st = statistics_counts[OF wf, of "''2024-01-01 00:00:00''"]
  have t: "st_tables (make_stats ''2024-01-01 00:00:00'' stats_example) = 3"
    by (simp add: stats_example_value make_stats_def tables_of_def table_data_def dict_get_def
        dict_find_def)
  have c: "st_columns (make_stats ''2024-01-01 00:00:00'' stats_example) = 4"
    by (simp add: stats_example_value make_stats_def tables_of_def table_data_def dict_get_def
        dict_find_def)
  have t': "sum_list (map (\<lambda>(s, d). ss_tables d)
      (st_schema_details (make_stats ''2024-01-01 00:00:00'' stats_example))) = 3"
    using st t by (simp only:)
  have c': "sum_list (map ts_columns (concat (map (\<lambda>(s, d). ss_table_details d)
     (st_schema_details (make_stats ''2024-01-01 00:00:00'' stats_example))))) = 4"
    using st c by (simp only:)
  show ?thesis
    by (intro conjI) (fact wf t t' c c')+
qed

text \<open>
  C6. For every input in which each element is read as a record whose schema and
  table can be dict keys, the aggregation returns a map whose (schema, table) keys are
  exactly the pairs occurring in the input: no key occurs twice, at the schema level or
  among the (schema, table) pairs, also up to Python equality of keys, and a pair is a
  key if and only if some input row carries it (up to Python equality, under which
  \<open>True\<close> and \<open>1\<close> are one key; literally when no schema or table is a boolean).
\<close>

theorem aggregated_keys:
  assumes "map read_item schema_data = map Inr rs"
    and "list_all keyable rs"
  shows "\<exists>org. aggregate schema_data = Inr org \<and>
           distinct (map fst org) \<and>
           distinct (table_keys org) \<and>
           distinct (map norm_pair (table_keys org)) \<and>
           norm_pair ` set (table_keys org) = (\<lambda>r. norm_pair (schema r, table r)) ` set rs \<and>
           ((\<forall>r \<in> set rs. norm (schema r) = schema r \<and> norm (table r) = table r) \<longrightarrow>
              set (table_keys org) = (\<lambda>r. (schema r, table r)) ` set rs)"
proof -
  let ?org = "foldl store_record [] rs"
  have wf: "wf_schema_map ?org"
    by (rule wf_foldl[OF wf_empty])
  then have d0: "distinct (map fst ?org)"
    by (simp add: wf_schema_map_def wf_distinct_keys)
  have d2: "distinct (map norm_pair (table_keys ?org))"
    by (rule distinct_table_keys[OF wf])
  then have d1: "distinct (table_keys ?org)"
    by (simp add: distinct_map)
  have n: "norm_pair ` set (table_keys ?org) = (\<lambda>r. norm_pair (schema r, table r)) ` set rs"
    using norm_keys_foldl[of rs] by (simp add: norm_pair_def)
  have e: "set (table_keys ?org) = (\<lambda>r. (schema r, table r)) ` set rs"
    if nf: "\<forall>r \<in> set rs. norm (schema r) = schema r \<and> norm (table r) = table r"
  proof -
    have "norm_pair p = p" if "p \<in> set (table_keys ?org)" for p
    proof -
      obtain s t where p: "p = (s, t)" by (cases p)
      with that obtain tabs where tabs: "(s, tabs) \<in> set ?org" "t \<in> fst ` set tabs"
        by (auto simp: in_table_keys)
      from tabs(1) have "s \<in> fst ` set ?org" by force
      then have s: "s \<in> schema ` set rs" by (rule schema_keys_foldl)
      from tabs have "t \<in> fst ` set (tables_of ?org s)"
        by (simp add: tables_of_in[OF wf])
      then have "t \<in> table ` set rs" by (rule table_keys_foldl)
      with s nf show ?thesis by (auto simp: norm_pair_def p)
    qed
    then have "norm_pair ` set (table_keys ?org) = set (table_keys ?org)"
      by force
    moreover have "(\<lambda>r. norm_pair (schema r, table r)) ` set rs = (\<lambda>r. (schema r, table r)) ` set rs"
      using nf by (auto simp: norm_pair_def)
    ultimately show ?thesis using n by simp
  qed
  from d0 d1 d2 n e aggregate_records[OF assms] show ?thesis
    by (intro exI[of _ ?org] conjI impI) assumption+
qed

theorem aggregated_keys_witness:
  "map read_item (map item_of [users_id_pk, users_id_fk, auth_users_id]) =
     map Inr [users_id_pk, users_id_fk, auth_users_id] \<and>
   list_all keyable [users_id_pk, users_id_fk, auth_users_id] \<and>
   (\<exists>org. aggregate (map item_of [users_id_pk, users_id_fk, auth_users_id]) = Inr org \<and>
      distinct (table_keys org) \<and>
      set (table_keys org) = {(JStr ''public'', JStr ''users''), (JStr ''auth'', JStr ''users'')})"
proof -
  have h: "map read_item (map item_of [users_id_pk, users_id_fk, auth_users_id]) =
     map Inr [users_id_pk, users_id_fk, auth_users_id]"
    by (rule read_items_of)
  have k: "list_all keyable [users_id_pk, users_id_fk, auth_users_id]"
    by (simp add: keyable_examples)
  show ?thesis
    using h k aggregated_keys[OF h k] by (auto simp: record_eval)
qed

text \<open>
  C7. The outputs of a run are a function of the input records and of the timestamp,
  and the timestamp enters only as the embedded string: for a given input either every
  run fails with the same exception and writes nothing, or every run fails with the
  same exception after writing the summary, which is a fixed byte string around the
  timestamp, or there are fixed byte strings around the timestamp in the summary and in
  the relationship view, and a fixed statistics value apart from its timestamp field,
  that every run produces.
\<close>

theorem outputs_fixed_but_timestamp:
  "\<exists>e p1 q1 p2 q2 st.
     (\<forall>timestamp. analyze timestamp schema_data = failed e None) \<or>
     (\<forall>timestamp. analyze timestamp schema_data = failed e (Some (p1 @ timestamp @ q1))) \<or>
     (\<forall>timestamp. analyze timestamp schema_data =
        \<lparr>exit_code = 0, raised = None,
         summary_file = Some (p1 @ timestamp @ q1),
         relations_file = Some (p2 @ timestamp @ q2),
         stats_file = Some (st\<lparr>st_timestamp := timestamp\<rparr>)\<rparr>)"
proof (cases "aggregate schema_data")
  case (Inl e)
  then have "\<forall>timestamp. analyze timestamp schema_data = failed e None"
    by (simp add: analyze_def)
  then show ?thesis by (intro exI disjI1)
next
  case (Inr org)
  from aggregate_Inr[OF Inr] obtain rs where org: "org = foldl store_record [] rs"
    by blast
  note agg = Inr[unfolded org]
  show ?thesis
  proof (cases "sortable_map org")
    case False
    with Inr have "\<forall>timestamp. analyze timestamp schema_data = failed TypeError None"
      by (simp add: analyze_unsortable)
    then show ?thesis by (intro exI disjI1)
  next
    case True
    note srt = True[unfolded org]
    let ?row = "\<lambda>r. row_with (if nullable r = JStr ''NULL'' then ''S'' @ [CHR 0xC3, CHR 0xAD] else ''No'')
                  (labels_of (foldl store_record [] rs) r) r"
    let ?p1 = "''# Resumen del Esquema de Base de Datos'' @ [CHR 0x0A, CHR 0x0A] @ ''*Generado el: ''"
    let ?q1 = "drop (length ?p1) (summary_with ?row [] (foldl store_record [] rs) rs)"
    let ?lines = "map relation_line (filter has_two_parts (fk_entries (foldl store_record [] rs)))"
    let ?p2 = "''# Relaciones entre Tablas'' @ [CHR 0x0A, CHR 0x0A] @ ''*Generado el: ''"
    let ?q2 = "drop (length ?p2) (relations_with ?lines [] (foldl store_record [] rs))"
    have s: "summary_with ?row timestamp (foldl store_record [] rs) rs = ?p1 @ timestamp @ ?q1"
      for timestamp by (rule summary_with_timestamp)
    have r: "relations_with ?lines timestamp (foldl store_record [] rs) = ?p2 @ timestamp @ ?q2"
      for timestamp by (rule relations_with_timestamp)
    show ?thesis
    proof (cases "plain_references org")
      case False
      note np = False[unfolded org]
      have "\<forall>timestamp. analyze timestamp schema_data =
          failed AttributeError (Some (?p1 @ timestamp @ ?q1))"
        unfolding s[symmetric] by (intro allI analyze_attribute_error[OF agg srt np])
      then show ?thesis by (intro exI disjI2 disjI1)
    next
      case True
      note pl = True[unfolded org]
      have "\<forall>timestamp. analyze timestamp schema_data =
        \<lparr>exit_code = 0, raised = None,
         summary_file = Some (?p1 @ timestamp @ ?q1),
         relations_file = Some (?p2 @ timestamp @ ?q2),
         stats_file = Some ((make_stats [] (foldl store_record [] rs))\<lparr>st_timestamp := timestamp\<rparr>)\<rparr>"
        unfolding s[symmetric] r[symmetric] make_stats_timestamp[symmetric]
        by (intro allI analyze_success[OF agg srt pl])
      then show ?thesis by (intro exI disjI2)
    qed
  qed
qed

text \<open>
  C8 (amended). When every element of the input is read as a record whose schema and
  table can be dict keys, the nullable flag of the column derived from a record is true
  exactly when the record's \<open>nullable\<close> field is the string \<open>NULL\<close> (null, \<open>NOT NULL\<close>
  and every other value give false). When the keys of the aggregated map can be sorted,
  the markdown summary is written and it is the document whose row for each record
  shows the flag as \<open>S\<close> followed by i-acute when the field is \<open>NULL\<close> and as \<open>No\<close>
  otherwise. When the keys cannot be sorted, the run fails with \<open>TypeError\<close> before
  the summary is written, and no flag is rendered.
\<close>

theorem nullable_flag:
  assumes "map read_item schema_data = map Inr rs" and "list_all keyable rs"
  shows "\<exists>org. aggregate schema_data = Inr org \<and>
     (\<forall>s t. map col_nullable (columns (table_data org s t)) =
        map (\<lambda>r. nullable r = JStr ''NULL'') (rows_of s t rs)) \<and>
     (sortable_map org \<longrightarrow>
        summary_file (analyze timestamp schema_data) =
          Some (summary_with
            (\<lambda>r. row_with
               (if nullable r = JStr ''NULL'' then ''S'' @ [CHR 0xC3, CHR 0xAD] else ''No'')
               (labels_of org r) r)
            timestamp org rs)) \<and>
     (\<not> sortable_map org \<longrightarrow> analyze timestamp schema_data = failed TypeError None)"
proof -
  let ?org = "foldl store_record [] rs"
  have agg: "aggregate schema_data = Inr ?org"
    using assms by (rule aggregate_records)
  have flags: "map col_nullable (columns (table_data ?org s t)) =
      map (\<lambda>r. nullable r = JStr ''NULL'') (rows_of s t rs)" for s t
    by (simp add: table_data_foldl table_of_rows_def mk_column_def o_def)
  have "sortable_map ?org \<longrightarrow>
        summary_file (analyze timestamp schema_data) =
          Some (summary_with
            (\<lambda>r. row_with
               (if nullable r = JStr ''NULL'' then ''S'' @ [CHR 0xC3, CHR 0xAD] else ''No'')
               (labels_of ?org r) r)
            timestamp ?org rs)"
    using summary_file_sortable[OF agg] by blast
  moreover have "\<not> sortable_map ?org \<longrightarrow> analyze timestamp schema_data = failed TypeError None"
    using analyze_unsortable[OF agg] by blast
  ultimately show ?thesis
    using agg flags by blast
qed

theorem nullable_flag_witness:
  "aggregate (map item_of [users_id_pk, users_email_pk]) =
     Inr (foldl store_record [] [users_id_pk, users_email_pk]) \<and>
   map col_nullable (columns (table_data (foldl store_record [] [users_id_pk, users_email_pk])
     (JStr ''public'') (JStr ''users''))) = [False, True] \<and>
   summary_file (analyze ''2024-01-01 00:00:00'' (map item_of [users_id_pk, users_email_pk])) =
     Some (''# Resumen del Esquema de Base de Datos'' @ [CHR 0x0A, CHR 0x0A] @
       ''*Generado el: 2024-01-01 00:00:00*'' @ [CHR 0x0A, CHR 0x0A] @
       ''## Esquema: public'' @ [CHR 0x0A, CHR 0x0A] @
       ''Contiene 1 tabla(s):'' @ [CHR 0x0A, CHR 0x0A] @
       ''### Tabla: users'' @ [CHR 0x0A, CHR 0x0A] @
       ''#### Columnas'' @ [CHR 0x0A, CHR 0x0A] @
       ''| Nombre | Tipo | Nullable | Restricciones |'' @ [CHR 0x0A] @
       ''|--------|------|----------|---------------|'' @ [CHR 0x0A] @
       ''| id | uuid | No |  |'' @ [CHR 0x0A] @
       ''| email | text | S'' @ [CHR 0xC3, CHR 0xAD] @ '' | PRIMARY KEY |'' @ [CHR 0x0A] @
       [CHR 0x0A, CHR 0x0A]) \<and>
   \<not> sortable_map (foldl store_record [] [null_schema_fk, users_id_pk]) \<and>
   summary_file (analyze ''2024-01-01 00:00:00'' (map item_of [null_schema_fk, users_id_pk])) =
     None"
proof -
  let ?rs = "[users_id_pk, users_email_pk]"
  let ?ns = "[null_schema_fk, users_id_pk]"
  have rn: "map read_item (map item_of ?ns) = map Inr ?ns"
    by (simp add: read_item_of)
  have kn: "list_all keyable ?ns" by (simp add: keyable_examples)
  have an: "aggregate (map item_of ?ns) = Inr (foldl store_record [] ?ns)"
    using kn by (rule aggregate_items)
  have sn: "\<not> sortable_map (foldl store_record [] ?ns)"
    unfolding null_schema_example by (simp add: map_eval store_eval)
  from nullable_flag[OF rn kn, of "''2024-01-01 00:00:00''"] an sn
  have "analyze ''2024-01-01 00:00:00'' (map item_of ?ns) = failed TypeError None"
    by auto
  then have fn: "summary_file (analyze ''2024-01-01 00:00:00'' (map item_of ?ns)) = None"
    by (simp add: failed_def)
  let ?org = "foldl store_record [] ?rs"
  have r: "map read_item (map item_of ?rs) = map Inr ?rs"
    by (simp add: read_item_of)
  have k: "list_all keyable ?rs" by (simp add: keyable_examples)
  have a: "aggregate (map item_of ?rs) = Inr ?org"
    using k by (rule aggregate_items)
  have s: "sortable_map ?org"
    unfolding users_example by (simp add: map_eval store_eval)
  have rows: "rows_of (JStr ''public'') (JStr ''users'') ?rs = ?rs"
    by (simp add: rows_of_def record_eval py_eq_def)
  have n: "map (\<lambda>r. nullable r = JStr ''NULL'') ?rs = [False, True]"
    by (simp add: record_eval)
  have l: "labels_of ?org users_id_pk = []" "labels_of ?org users_email_pk = [''PRIMARY KEY'']"
    unfolding users_example
    by (simp_all add: labels_of_def constraint_labels_def store_eval record_eval)
  have sk: "sorted_keys ?org = [JStr ''public'']"
    unfolding users_example by (simp add: sorted_keys_def)
  have tk: "sorted_keys (tables_of ?org (JStr ''public'')) = [JStr ''users'']"
    unfolding users_example by (simp add: sorted_keys_def store_eval)
  have tn: "length (tables_of ?org (JStr ''public'')) = 1"
    unfolding users_example by (simp add: store_eval)
  have doc: "summary_with
            (\<lambda>r. row_with
               (if nullable r = JStr ''NULL'' then ''S'' @ [CHR 0xC3, CHR 0xAD] else ''No'')
               (labels_of ?org r) r)
            ''2024-01-01 00:00:00'' ?org ?rs =
       ''# Resumen del Esquema de Base de Datos'' @ [CHR 0x0A, CHR 0x0A] @
       ''*Generado el: 2024-01-01 00:00:00*'' @ [CHR 0x0A, CHR 0x0A] @
       ''## Esquema: public'' @ [CHR 0x0A, CHR 0x0A] @
       ''Contiene 1 tabla(s):'' @ [CHR 0x0A, CHR 0x0A] @
       ''### Tabla: users'' @ [CHR 0x0A, CHR 0x0A] @
       ''#### Columnas'' @ [CHR 0x0A, CHR 0x0A] @
       ''| Nombre | Tipo | Nullable | Restricciones |'' @ [CHR 0x0A] @
       ''|--------|------|----------|---------------|'' @ [CHR 0x0A] @
       ''| id | uuid | No |  |'' @ [CHR 0x0A] @
       ''| email | text | S'' @ [CHR 0xC3, CHR 0xAD] @ '' | PRIMARY KEY |'' @ [CHR 0x0A] @
       [CHR 0x0A, CHR 0x0A]"
    unfolding summary_with_def
    by (simp only: sk tk tn rows l list.map concat.simps append_Nil2)
       (simp add: row_with_def py_str_def record_eval)
  from nullable_flag[OF r k, of "''2024-01-01 00:00:00''"] a
  have f: "map col_nullable (columns (table_data ?org (JStr ''public'') (JStr ''users''))) =
        map (\<lambda>r. nullable r = JStr ''NULL'') (rows_of (JStr ''public'') (JStr ''users'') ?rs)"
    and sm: "sortable_map ?org \<longrightarrow>
      summary_file (analyze ''2024-01-01 00:00:00'' (map item_of ?rs)) =
          Some (summary_with
            (\<lambda>r. row_with
               (if nullable r = JStr ''NULL'' then ''S'' @ [CHR 0xC3, CHR 0xAD] else ''No'')
               (labels_of ?org r) r)
            ''2024-01-01 00:00:00'' ?org ?rs)"
    by auto
  from sm s have "summary_file (analyze ''2024-01-01 00:00:00'' (map item_of ?rs)) =
          Some (summary_with
            (\<lambda>r. row_with
               (if nullable r = JStr ''NULL'' then ''S'' @ [CHR 0xC3, CHR 0xAD] else ''No'')
               (labels_of ?org r) r)
            ''2024-01-01 00:00:00'' ?org ?rs)"
    by (rule mp)
  note sf = this[unfolded doc]
  note f' = f[unfolded rows n]
  show ?thesis
    by (intro conjI) (fact a f' sf sn fn)+
qed

text \<open>
  C8 as stated fails: for two complete records, one of schema null and one of schema
  \<open>public\<close>, the flags are derived but \<open>sorted\<close> raises \<open>TypeError\<close> on the schema
  keys and the run exits with status 1 without a markdown summary: no flag is rendered.
\<close>

theorem no_summary_counterexample:
  "list_all complete [item_of null_schema_fk, item_of users_id_pk] \<and>
   nullable null_schema_fk = JStr ''NULL'' \<and>
   nullable users_id_pk = JStr ''NOT NULL'' \<and>
   analyze ''2024-01-01 00:00:00'' [item_of null_schema_fk, item_of users_id_pk] =
     \<lparr>exit_code = 1, raised = Some TypeError, summary_file = None, relations_file = None,
      stats_file = None\<rparr>"
proof -
  let ?rs = "[null_schema_fk, users_id_pk]"
  have c: "list_all complete [item_of null_schema_fk, item_of users_id_pk]"
    by (simp add: read_item_complete_iff read_item_of)
  have a: "aggregate [item_of null_schema_fk, item_of users_id_pk] = Inr (foldl store_record [] ?rs)"
    using aggregate_items[of ?rs] by (simp add: keyable_examples)
  have s: "\<not> sortable_map (foldl store_record [] ?rs)"
    unfolding null_schema_example by (simp add: map_eval store_eval)
  have n: "nullable null_schema_fk = JStr ''NULL''" "nullable users_id_pk = JStr ''NOT NULL''"
    by (simp_all add: record_eval)
  note an = analyze_unsortable[OF a s, of "''2024-01-01 00:00:00''", unfolded failed_def]
  show ?thesis
    by (intro conjI) (fact c n an)+
qed

text \<open>
  C9 (amended). For an input record \<open>r\<close> with constraint type FOREIGN KEY and a null
  \<open>references_table\<close>, in an input of records whose schema and table can be dict keys:
  the pair (column, null) is appended to the foreign-key list of its table, which is
  the list of the pairs of the FOREIGN KEY rows of the table before \<open>r\<close>, this pair,
  and those of the rows after \<open>r\<close>. Provided no earlier FOREIGN KEY row of the same
  table and column carries a non-null reference, the labels of every row of that
  column end with \<open>FK -> None\<close> (after PRIMARY KEY and UNIQUE only), and when the keys
  of the map can be sorted the markdown summary is written with these labels in its
  rows. The entry of \<open>r\<close> has no two-part reference, so the relationship view, written
  when moreover every reference is false or a string, has no line for it: its lines
  are those of the entries with a two-part reference.
\<close>

theorem null_reference_fk:
  assumes "map read_item schema_data = map Inr (before @ r # after)"
    and "list_all keyable (before @ r # after)"
    and "constraint_type r = JStr ''FOREIGN KEY''"
    and "references_table r = JNull"
    and "\<forall>r' \<in> set before.
           py_eq (schema r') (schema r) \<and> py_eq (table r') (table r) \<and>
           py_eq (column r') (column r) \<and> constraint_type r' = JStr ''FOREIGN KEY'' \<longrightarrow>
           references_table r' = JNull"
  shows "\<exists>org. aggregate schema_data = Inr org \<and>
     foreign_keys (table_data org (schema r) (table r)) =
       map mk_fk (with_constraint ''FOREIGN KEY'' (rows_of (schema r) (table r) before)) @
       \<lparr>fk_column = column r, fk_references = JNull\<rparr> #
       map mk_fk (with_constraint ''FOREIGN KEY'' (rows_of (schema r) (table r) after)) \<and>
     (\<forall>r' \<in> set (rows_of (schema r) (table r) (before @ r # after)).
        py_eq (column r') (column r) \<longrightarrow>
        (\<exists>ks. set ks \<subseteq> {''PRIMARY KEY'', ''UNIQUE''} \<and>
           labels_of org r' = ks @ [''FK '' @ [CHR 0xE2, CHR 0x86, CHR 0x92] @ '' None''])) \<and>
     (sortable_map org \<longrightarrow>
        summary_file (analyze timestamp schema_data) =
          Some (summary_with
            (\<lambda>r'. row_with
               (if nullable r' = JStr ''NULL'' then ''S'' @ [CHR 0xC3, CHR 0xAD] else ''No'')
               (labels_of org r') r')
            timestamp org (before @ r # after))) \<and>
     \<not> has_two_parts (schema r, table r, \<lparr>fk_column = column r, fk_references = JNull\<rparr>) \<and>
     (sortable_map org \<and> plain_references org \<longrightarrow>
        relations_file (analyze timestamp schema_data) =
          Some (relations_with (map relation_line (filter has_two_parts (fk_entries org)))
                  timestamp org))"
proof -
  let ?rs = "before @ r # after"
  let ?org = "foldl store_record [] ?rs"
  let ?fks = "foreign_keys (table_data ?org (schema r) (table r))"
  let ?xs = "map mk_fk (with_constraint ''FOREIGN KEY'' (rows_of (schema r) (table r) before))"
  let ?ys = "map mk_fk (with_constraint ''FOREIGN KEY'' (rows_of (schema r) (table r) after))"
  have agg: "aggregate schema_data = Inr ?org"
    using assms(1,2) by (rule aggregate_records)
  have mk: "mk_fk r = \<lparr>fk_column = column r, fk_references = JNull\<rparr>"
    using assms(4) by (simp add: mk_fk_def)
  have fks: "?fks = ?xs @ mk_fk r # ?ys"
    unfolding foreign_keys_foldl using assms(3) by (simp add: rows_of_def with_constraint_def)
  have "\<forall>x \<in> set ?xs. py_eq (fk_column x) (column r) \<longrightarrow> fk_references x = JNull"
    using assms(5) by (auto simp: rows_of_def with_constraint_def mk_fk_def)
  from find_null_reference[OF this, of "mk_fk r" ?ys] obtain fk where
    fk: "find (\<lambda>fk. py_eq (fk_column fk) (column r)) ?fks = Some fk" "fk_references fk = JNull"
    unfolding fks by (auto simp: mk_fk_def assms(4))
  have labels: "\<exists>ks. set ks \<subseteq> {''PRIMARY KEY'', ''UNIQUE''} \<and>
      labels_of ?org r' = ks @ [''FK '' @ [CHR 0xE2, CHR 0x86, CHR 0x92] @ '' None'']"
    if "r' \<in> set (rows_of (schema r) (table r) ?rs)" "py_eq (column r') (column r)" for r'
  proof -
    from that(1) have "py_eq (schema r') (schema r)" "py_eq (table r') (table r)"
      by (auto simp: rows_of_def)
    from labels_of_first[OF this that(2) fk(1)] show ?thesis
      by (simp add: fk(2) py_str_def)
  qed
  have summary: "sortable_map ?org \<longrightarrow>
        summary_file (analyze timestamp schema_data) =
          Some (summary_with
            (\<lambda>r'. row_with
               (if nullable r' = JStr ''NULL'' then ''S'' @ [CHR 0xC3, CHR 0xAD] else ''No'')
               (labels_of ?org r') r')
            timestamp ?org ?rs)"
    using summary_file_sortable[OF agg] by blast
  have none: "\<not> has_two_parts (schema r, table r, \<lparr>fk_column = column r, fk_references = JNull\<rparr>)"
    by (simp add: has_two_parts_def)
  have relations: "sortable_map ?org \<and> plain_references ?org \<longrightarrow>
        relations_file (analyze timestamp schema_data) =
          Some (relations_with (map relation_line (filter has_two_parts (fk_entries ?org)))
                  timestamp ?org)"
  proof (intro impI, elim conjE)
    assume s: "sortable_map ?org" and p: "plain_references ?org"
    show "relations_file (analyze timestamp schema_data) =
          Some (relations_with (map relation_line (filter has_two_parts (fk_entries ?org)))
                  timestamp ?org)"
      unfolding analyze_success[OF agg s p] by simp
  qed
  from agg fks[unfolded mk] labels summary none relations show ?thesis
    by (intro exI[of _ ?org] conjI ballI impI) blast+
qed

theorem null_reference_fk_witness:
  "map read_item (map item_of [posts_editor_fk_bad, posts_author_fk_null, posts_author_fk]) =
     map Inr ([posts_editor_fk_bad] @ posts_author_fk_null # [posts_author_fk]) \<and>
   list_all keyable ([posts_editor_fk_bad] @ posts_author_fk_null # [posts_author_fk]) \<and>
   constraint_type posts_author_fk_null = JStr ''FOREIGN KEY'' \<and>
   references_table posts_author_fk_null = JNull \<and>
   foreign_keys (table_data
       (foldl store_record [] [posts_editor_fk_bad, posts_author_fk_null, posts_author_fk])
       (JStr ''public'') (JStr ''posts'')) =
     [\<lparr>fk_column = JStr ''editor'', fk_references = JStr ''users''\<rparr>,
      \<lparr>fk_column = JStr ''author'', fk_references = JNull\<rparr>,
      \<lparr>fk_column = JStr ''author'', fk_references = JStr ''public.users''\<rparr>] \<and>
   summary_file (analyze ''2024-01-01 00:00:00''
       (map item_of [posts_editor_fk_bad, posts_author_fk_null, posts_author_fk])) =
     Some (''# Resumen del Esquema de Base de Datos'' @ [CHR 0x0A, CHR 0x0A] @
       ''*Generado el: 2024-01-01 00:00:00*'' @ [CHR 0x0A, CHR 0x0A] @
       ''## Esquema: public'' @ [CHR 0x0A, CHR 0x0A] @
       ''Contiene 1 tabla(s):'' @ [CHR 0x0A, CHR 0x0A] @
       ''### Tabla: posts'' @ [CHR 0x0A, CHR 0x0A] @
       ''#### Columnas'' @ [CHR 0x0A, CHR 0x0A] @
       ''| Nombre | Tipo | Nullable | Restricciones |'' @ [CHR 0x0A] @
       ''|--------|------|----------|---------------|'' @ [CHR 0x0A] @
       ''| editor | uuid | S'' @ [CHR 0xC3, CHR 0xAD] @ '' | FK '' @
         [CHR 0xE2, CHR 0x86, CHR 0x92] @ '' users |'' @ [CHR 0x0A] @
       ''| author | uuid | S'' @ [CHR 0xC3, CHR 0xAD] @ '' | FK '' @
         [CHR 0xE2, CHR 0x86, CHR 0x92] @ '' None |'' @ [CHR 0x0A] @
       ''| author | uuid | S'' @ [CHR 0xC3, CHR 0xAD] @ '' | FK '' @
         [CHR 0xE2, CHR 0x86, CHR 0x92] @ '' None |'' @ [CHR 0x0A] @
       [CHR 0x0A, CHR 0x0A]) \<and>
   relations_file (analyze ''2024-01-01 00:00:00''
       (map item_of [posts_editor_fk_bad, posts_author_fk_null, posts_author_fk])) =
     Some (relations_with
       [''    public_posts ||--o{ public_users : '' @ [CHR 0x22] @ ''author'' @
          [CHR 0x22, CHR 0x0A]]
       ''2024-01-01 00:00:00''
       (foldl store_record [] [posts_editor_fk_bad, posts_author_fk_null, posts_author_fk]))"
proof -
  let ?rs = "[posts_editor_fk_bad, posts_author_fk_null, posts_author_fk]"
  let ?org = "foldl store_record [] ?rs"
  have h1: "map read_item (map item_of ?rs) =
      map Inr ([posts_editor_fk_bad] @ posts_author_fk_null # [posts_author_fk])"
    by (simp add: read_item_of)
  have h2: "list_all keyable ([posts_editor_fk_bad] @ posts_author_fk_null # [posts_author_fk])"
    by (simp add: keyable_examples)
  have h3: "constraint_type posts_author_fk_null = JStr ''FOREIGN KEY''"
    by (simp add: record_eval)
  have h4: "references_table posts_author_fk_null = JNull"
    by (simp add: record_eval)
  have h5: "\<forall>r' \<in> set [posts_editor_fk_bad].
           py_eq (schema r') (schema posts_author_fk_null) \<and>
           py_eq (table r') (table posts_author_fk_null) \<and>
           py_eq (column r') (column posts_author_fk_null) \<and>
           constraint_type r' = JStr ''FOREIGN KEY'' \<longrightarrow>
           references_table r' = JNull"
    by (simp add: record_eval)
  have a: "aggregate (map item_of ?rs) = Inr ?org"
    by (rule aggregate_items) (simp add: keyable_examples)
  have s: "sortable_map ?org"
    unfolding editor_author_example by (simp add: map_eval store_eval)
  have p: "plain_references ?org"
    unfolding editor_author_example by (simp add: map_eval store_eval)
  have st: "schema posts_author_fk_null = JStr ''public''"
    "table posts_author_fk_null = JStr ''posts''"
    by (simp_all add: record_eval)
  have fk: "foreign_keys (table_data ?org (JStr ''public'') (JStr ''posts'')) =
     [\<lparr>fk_column = JStr ''editor'', fk_references = JStr ''users''\<rparr>,
      \<lparr>fk_column = JStr ''author'', fk_references = JNull\<rparr>,
      \<lparr>fk_column = JStr ''author'', fk_references = JStr ''public.users''\<rparr>]"
    unfolding editor_author_example by (simp add: store_eval)
  have l: "labels_of ?org posts_editor_fk_bad = [''FK '' @ [CHR 0xE2, CHR 0x86, CHR 0x92] @ '' users'']"
    "labels_of ?org posts_author_fk_null = [''FK '' @ [CHR 0xE2, CHR 0x86, CHR 0x92] @ '' None'']"
    "labels_of ?org posts_author_fk = [''FK '' @ [CHR 0xE2, CHR 0x86, CHR 0x92] @ '' None'']"
    unfolding editor_author_example
    by (simp_all add: labels_of_def constraint_labels_def store_eval record_eval fk_label_def
        arrow_def py_str_def)
  have sk: "sorted_keys ?org = [JStr ''public'']"
    unfolding editor_author_example by (simp add: sorted_keys_def)
  have tk: "sorted_keys (tables_of ?org (JStr ''public'')) = [JStr ''posts'']"
    unfolding editor_author_example by (simp add: sorted_keys_def store_eval)
  have tn: "length (tables_of ?org (JStr ''public'')) = 1"
    unfolding editor_author_example by (simp add: store_eval)
  have rows: "rows_of (JStr ''public'') (JStr ''posts'')
      ([posts_editor_fk_bad] @ posts_author_fk_null # [posts_author_fk]) = ?rs"
    by (simp add: rows_of_def record_eval py_eq_def)
  have doc: "summary_with
            (\<lambda>r'. row_with
               (if nullable r' = JStr ''NULL'' then ''S'' @ [CHR 0xC3, CHR 0xAD] else ''No'')
               (labels_of ?org r') r')
            ''2024-01-01 00:00:00'' ?org
            ([posts_editor_fk_bad] @ posts_author_fk_null # [posts_author_fk]) =
       ''# Resumen del Esquema de Base de Datos'' @ [CHR 0x0A, CHR 0x0A] @
       ''*Generado el: 2024-01-01 00:00:00*'' @ [CHR 0x0A, CHR 0x0A] @
       ''## Esquema: public'' @ [CHR 0x0A, CHR 0x0A] @
       ''Contiene 1 tabla(s):'' @ [CHR 0x0A, CHR 0x0A] @
       ''### Tabla: posts'' @ [CHR 0x0A, CHR 0x0A] @
       ''#### Columnas'' @ [CHR 0x0A, CHR 0x0A] @
       ''| Nombre | Tipo | Nullable | Restricciones |'' @ [CHR 0x0A] @
       ''|--------|------|----------|---------------|'' @ [CHR 0x0A] @
       ''| editor | uuid | S'' @ [CHR 0xC3, CHR 0xAD] @ '' | FK '' @
         [CHR 0xE2, CHR 0x86, CHR 0x92] @ '' users |'' @ [CHR 0x0A] @
       ''| author | uuid | S'' @ [CHR 0xC3, CHR 0xAD] @ '' | FK '' @
         [CHR 0xE2, CHR 0x86, CHR 0x92] @ '' None |'' @ [CHR 0x0A] @
       ''| author | uuid | S'' @ [CHR 0xC3, CHR 0xAD] @ '' | FK '' @
         [CHR 0xE2, CHR 0x86, CHR 0x92] @ '' None |'' @ [CHR 0x0A] @
       [CHR 0x0A, CHR 0x0A]"
    unfolding summary_with_def
    by (simp only: sk tk tn rows l list.map concat.simps append_Nil2)
       (simp add: row_with_def py_str_def record_eval)
  have lines: "map relation_line (filter has_two_parts (fk_entries ?org)) =
      [''    public_posts ||--o{ public_users : '' @ [CHR 0x22] @ ''author'' @
          [CHR 0x22, CHR 0x0A]]"
    unfolding editor_author_example
    by (simp add: map_eval store_eval relation_line_def ref_schema_of_def ref_table_of_def
        split_dot_def py_str_def)
  from null_reference_fk[OF h1 h2 h3 h4 h5, of "''2024-01-01 00:00:00''"]
  obtain org where o: "aggregate (map item_of ?rs) = Inr org"
    and sm: "sortable_map org \<longrightarrow>
        summary_file (analyze ''2024-01-01 00:00:00'' (map item_of ?rs)) =
          Some (summary_with
            (\<lambda>r'. row_with
               (if nullable r' = JStr ''NULL'' then ''S'' @ [CHR 0xC3, CHR 0xAD] else ''No'')
               (labels_of org r') r')
            ''2024-01-01 00:00:00'' org
            ([posts_editor_fk_bad] @ posts_author_fk_null # [posts_author_fk]))"
    and rl: "sortable_map org \<and> plain_references org \<longrightarrow>
        relations_file (analyze ''2024-01-01 00:00:00'' (map item_of ?rs)) =
          Some (relations_with (map relation_line (filter has_two_parts (fk_entries org)))
                  ''2024-01-01 00:00:00'' org)"
    by blast
  from o a have org: "org = ?org" by simp
  from sm s have sf: "summary_file (analyze ''2024-01-01 00:00:00'' (map item_of ?rs)) =
          Some (summary_with
            (\<lambda>r'. row_with
               (if nullable r' = JStr ''NULL'' then ''S'' @ [CHR 0xC3, CHR 0xAD] else ''No'')
               (labels_of ?org r') r')
            ''2024-01-01 00:00:00'' ?org
            ([posts_editor_fk_bad] @ posts_author_fk_null # [posts_author_fk]))"
    unfolding org by (rule mp)
  from rl s p have rf: "relations_file (analyze ''2024-01-01 00:00:00'' (map item_of ?rs)) =
          Some (relations_with (map relation_line (filter has_two_parts (fk_entries ?org)))
                  ''2024-01-01 00:00:00'' ?org)"
    unfolding org by blast
  show ?thesis
    by (intro conjI) (fact h1 h2 h3 h4 fk sf[unfolded doc] rf[unfolded lines])+
qed

text \<open>
  C9 as stated fails: when an earlier FOREIGN KEY row of the same column refers to
  \<open>public.users\<close>, the summary labels the column of the row with the null reference
  with that reference, in both rows, and \<open>FK -> None\<close> does not appear.
\<close>

theorem null_reference_label_counterexample:
  "constraint_type posts_author_fk_null = JStr ''FOREIGN KEY'' \<and>
   references_table posts_author_fk_null = JNull \<and>
   aggregate (map item_of [posts_author_fk, posts_author_fk_null]) = Inr author_twice_map \<and>
   summary_file (analyze ''2024-01-01 00:00:00''
       (map item_of [posts_author_fk, posts_author_fk_null])) =
     Some (''# Resumen del Esquema de Base de Datos'' @ [CHR 0x0A, CHR 0x0A] @
       ''*Generado el: 2024-01-01 00:00:00*'' @ [CHR 0x0A, CHR 0x0A] @
       ''## Esquema: public'' @ [CHR 0x0A, CHR 0x0A] @
       ''Contiene 1 tabla(s):'' @ [CHR 0x0A, CHR 0x0A] @
       ''### Tabla: posts'' @ [CHR 0x0A, CHR 0x0A] @
       ''#### Columnas'' @ [CHR 0x0A, CHR 0x0A] @
       ''| Nombre | Tipo | Nullable | Restricciones |'' @ [CHR 0x0A] @
       ''|--------|------|----------|---------------|'' @ [CHR 0x0A] @
       ''| author | uuid | S'' @ [CHR 0xC3, CHR 0xAD] @ '' | FK '' @
         [CHR 0xE2, CHR 0x86, CHR 0x92] @ '' public.users |'' @ [CHR 0x0A] @
       ''| author | uuid | S'' @ [CHR 0xC3, CHR 0xAD] @ '' | FK '' @
         [CHR 0xE2, CHR 0x86, CHR 0x92] @ '' public.users |'' @ [CHR 0x0A] @
       [CHR 0x0A, CHR 0x0A])"
proof -
  let ?rs = "[posts_author_fk, posts_author_fk_null]"
  let ?org = "foldl store_record [] ?rs"
  have h3: "constraint_type posts_author_fk_null = JStr ''FOREIGN KEY''"
    by (simp add: record_eval)
  have h4: "references_table posts_author_fk_null = JNull"
    by (simp add: record_eval)
  have a: "aggregate (map item_of ?rs) = Inr ?org"
    by (rule aggregate_items) (simp add: keyable_examples)
  have s: "sortable_map ?org"
    unfolding author_twice_example author_twice_map_def by (simp add: map_eval store_eval)
  have l: "labels_of ?org posts_author_fk_null =
      [''FK '' @ [CHR 0xE2, CHR 0x86, CHR 0x92] @ '' public.users'']"
    "labels_of ?org posts_author_fk =
      [''FK '' @ [CHR 0xE2, CHR 0x86, CHR 0x92] @ '' public.users'']"
    unfolding author_twice_example author_twice_map_def
    by (simp_all add: labels_of_def constraint_labels_def store_eval record_eval fk_label_def
        arrow_def py_str_def)
  have sk: "sorted_keys ?org = [JStr ''public'']"
    unfolding author_twice_example author_twice_map_def by (simp add: sorted_keys_def)
  have tk: "sorted_keys (tables_of ?org (JStr ''public'')) = [JStr ''posts'']"
    unfolding author_twice_example author_twice_map_def by (simp add: sorted_keys_def store_eval)
  have tn: "length (tables_of ?org (JStr ''public'')) = 1"
    unfolding author_twice_example author_twice_map_def by (simp add: store_eval)
  have rows: "rows_of (JStr ''public'') (JStr ''posts'') ?rs = ?rs"
    by (simp add: rows_of_def record_eval py_eq_def)
  have doc: "summary_with
            (\<lambda>r'. row_with
               (if nullable r' = JStr ''NULL'' then ''S'' @ [CHR 0xC3, CHR 0xAD] else ''No'')
               (labels_of ?org r') r')
            ''2024-01-01 00:00:00'' ?org ?rs =
       ''# Resumen del Esquema de Base de Datos'' @ [CHR 0x0A, CHR 0x0A] @
       ''*Generado el: 2024-01-01 00:00:00*'' @ [CHR 0x0A, CHR 0x0A] @
       ''## Esquema: public'' @ [CHR 0x0A, CHR 0x0A] @
       ''Contiene 1 tabla(s):'' @ [CHR 0x0A, CHR 0x0A] @
       ''### Tabla: posts'' @ [CHR 0x0A, CHR 0x0A] @
       ''#### Columnas'' @ [CHR 0x0A, CHR 0x0A] @
       ''| Nombre | Tipo | Nullable | Restricciones |'' @ [CHR 0x0A] @
       ''|--------|------|----------|---------------|'' @ [CHR 0x0A] @
       ''| author | uuid | S'' @ [CHR 0xC3, CHR 0xAD] @ '' | FK '' @
         [CHR 0xE2, CHR 0x86, CHR 0x92] @ '' public.users |'' @ [CHR 0x0A] @
       ''| author | uuid | S'' @ [CHR 0xC3, CHR 0xAD] @ '' | FK '' @
         [CHR 0xE2, CHR 0x86, CHR 0x92] @ '' public.users |'' @ [CHR 0x0A] @
       [CHR 0x0A, CHR 0x0A]"
    unfolding summary_with_def
    by (simp only: sk tk tn rows l list.map concat.simps append_Nil2)
       (simp add: row_with_def py_str_def record_eval)
  note sf = summary_file_sortable[OF a s, of "''2024-01-01 00:00:00''", unfolded doc]
  show ?thesis
    by (intro conjI) (fact h3 h4 a[unfolded author_twice_example] sf)+
qed

text \<open>
  C10 (amended). For the map aggregated from an input, when the foreign-key list of a
  table has several entries for a column name, the labels of every row of that column
  end with a single FK label, that of the first such entry in list order, after
  PRIMARY KEY and UNIQUE only, and when the keys of the map can be sorted the markdown
  summary is written with these labels in its rows. The foreign-key entries of the
  diagram that belong to the table are those of its list, in list order; when moreover
  every reference is false or a string, the relationship view is written and has one
  line for each entry whose reference has exactly two dot-separated parts, entries of
  the same column included, and no line for any other entry.
\<close>

theorem first_fk_label_and_lines:
  assumes "aggregate schema_data = Inr org"
    and "map read_item schema_data = map Inr rs"
    and "foreign_keys (table_data org s t) = before @ fk # after"
    and "\<forall>f \<in> set before. \<not> py_eq (fk_column f) c"
    and "py_eq (fk_column fk) c"
  shows "(\<forall>r \<in> set (rows_of s t rs). py_eq (column r) c \<longrightarrow>
            (\<exists>ks. set ks \<subseteq> {''PRIMARY KEY'', ''UNIQUE''} \<and>
               labels_of org r =
                 ks @ [''FK '' @ [CHR 0xE2, CHR 0x86, CHR 0x92] @ '' '' @
                       py_str (fk_references fk)])) \<and>
         (sortable_map org \<longrightarrow>
            summary_file (analyze timestamp schema_data) =
              Some (summary_with
                (\<lambda>r. row_with
                   (if nullable r = JStr ''NULL'' then ''S'' @ [CHR 0xC3, CHR 0xAD] else ''No'')
                   (labels_of org r) r)
                timestamp org rs)) \<and>
         ((s, t) \<in> set (table_keys org) \<longrightarrow>
            filter (\<lambda>e. fst e = s \<and> fst (snd e) = t) (fk_entries org) =
              map (\<lambda>f. (s, t, f)) (before @ fk # after)) \<and>
         (sortable_map org \<and> plain_references org \<longrightarrow>
            all_relations org = Inr (map relation_line (filter has_two_parts (fk_entries org))) \<and>
            relations_file (analyze timestamp schema_data) =
              Some (relations_with (map relation_line (filter has_two_parts (fk_entries org)))
                      timestamp org))"
proof -
  from aggregate_Inr[OF assms(1)] obtain rs' where rs': "map read_item schema_data = map Inr rs'"
    "org = foldl store_record [] rs'"
    by blast
  from rs'(1) assms(2) have "map Inr rs' = (map Inr rs :: (error + column_record) list)"
    by simp
  then have "rs' = rs"
    by (simp add: inj_map_eq_map)
  with rs'(2) have org: "org = foldl store_record [] rs" by simp
  have agg: "aggregate schema_data = Inr (foldl store_record [] rs)"
    using assms(1) org by simp
  have wf: "wf_schema_map org"
    using assms(1) by (rule aggregate_wf)
  have first: "find (\<lambda>f. py_eq (fk_column f) c) (foreign_keys (table_data org s t)) = Some fk"
    unfolding assms(3) using assms(4,5) by (intro find_first_match) auto
  have labels: "\<exists>ks. set ks \<subseteq> {''PRIMARY KEY'', ''UNIQUE''} \<and>
      labels_of org r =
        ks @ [''FK '' @ [CHR 0xE2, CHR 0x86, CHR 0x92] @ '' '' @ py_str (fk_references fk)]"
    if "r \<in> set (rows_of s t rs)" "py_eq (column r) c" for r
  proof -
    from that(1) have "py_eq (schema r) s" "py_eq (table r) t"
      by (auto simp: rows_of_def)
    from labels_of_first[OF this that(2) first] show ?thesis .
  qed
  have summary: "sortable_map org \<longrightarrow>
      summary_file (analyze timestamp schema_data) =
        Some (summary_with
          (\<lambda>r. row_with
             (if nullable r = JStr ''NULL'' then ''S'' @ [CHR 0xC3, CHR 0xAD] else ''No'')
             (labels_of org r) r)
          timestamp org rs)"
    using summary_file_sortable[OF agg] unfolding org by blast
  have entries: "(s, t) \<in> set (table_keys org) \<longrightarrow>
      filter (\<lambda>e. fst e = s \<and> fst (snd e) = t) (fk_entries org) =
        map (\<lambda>f. (s, t, f)) (before @ fk # after)"
    using fk_entries_table[OF wf] unfolding assms(3)[symmetric] by blast
  have relations: "sortable_map org \<and> plain_references org \<longrightarrow>
      all_relations org = Inr (map relation_line (filter has_two_parts (fk_entries org))) \<and>
      relations_file (analyze timestamp schema_data) =
        Some (relations_with (map relation_line (filter has_two_parts (fk_entries org)))
                timestamp org)"
  proof (intro impI, elim conjE)
    assume s: "sortable_map org" and p: "plain_references org"
    from s p have s': "sortable_map (foldl store_record [] rs)"
      and p': "plain_references (foldl store_record [] rs)"
      by (simp_all add: org)
    show "all_relations org = Inr (map relation_line (filter has_two_parts (fk_entries org))) \<and>
      relations_file (analyze timestamp schema_data) =
        Some (relations_with (map relation_line (filter has_two_parts (fk_entries org)))
                timestamp org)"
      unfolding analyze_success[OF agg s' p'] all_relations_ok[OF s p] by (simp add: org)
  qed
  from labels summary entries relations show ?thesis
    by (intro conjI ballI impI) blast+
qed

theorem first_fk_label_and_lines_witness:
  "aggregate (map item_of [posts_editor_fk_bad, posts_author_fk, posts_author_fk_auth]) =
     Inr (foldl store_record [] [posts_editor_fk_bad, posts_author_fk, posts_author_fk_auth]) \<and>
   foreign_keys (table_data
       (foldl store_record [] [posts_editor_fk_bad, posts_author_fk, posts_author_fk_auth])
       (JStr ''public'') (JStr ''posts'')) =
     [\<lparr>fk_column = JStr ''editor'', fk_references = JStr ''users''\<rparr>] @
     \<lparr>fk_column = JStr ''author'', fk_references = JStr ''public.users''\<rparr> #
     [\<lparr>fk_column = JStr ''author'', fk_references = JStr ''auth.users''\<rparr>] \<and>
   summary_file (analyze ''2024-01-01 00:00:00''
       (map item_of [posts_editor_fk_bad, posts_author_fk, posts_author_fk_auth])) =
     Some (''# Resumen del Esquema de Base de Datos'' @ [CHR 0x0A, CHR 0x0A] @
       ''*Generado el: 2024-01-01 00:00:00*'' @ [CHR 0x0A, CHR 0x0A] @
       ''## Esquema: public'' @ [CHR 0x0A, CHR 0x0A] @
       ''Contiene 1 tabla(s):'' @ [CHR 0x0A, CHR 0x0A] @
       ''### Tabla: posts'' @ [CHR 0x0A, CHR 0x0A] @
       ''#### Columnas'' @ [CHR 0x0A, CHR 0x0A] @
       ''| Nombre | Tipo | Nullable | Restricciones |'' @ [CHR 0x0A] @
       ''|--------|------|----------|---------------|'' @ [CHR 0x0A] @
       ''| editor | uuid | S'' @ [CHR 0xC3, CHR 0xAD] @ '' | FK '' @
         [CHR 0xE2, CHR 0x86, CHR 0x92] @ '' users |'' @ [CHR 0x0A] @
       ''| author | uuid | S'' @ [CHR 0xC3, CHR 0xAD] @ '' | FK '' @
         [CHR 0xE2, CHR 0x86, CHR 0x92] @ '' public.users |'' @ [CHR 0x0A] @
       ''| author | uuid | S'' @ [CHR 0xC3, CHR 0xAD] @ '' | FK '' @
         [CHR 0xE2, CHR 0x86, CHR 0x92] @ '' public.users |'' @ [CHR 0x0A] @
       [CHR 0x0A, CHR 0x0A]) \<and>
   all_relations
       (foldl store_record [] [posts_editor_fk_bad, posts_author_fk, posts_author_fk_auth]) =
     Inr [''    public_posts ||--o{ public_users : '' @ [CHR 0x22] @ ''author'' @
            [CHR 0x22, CHR 0x0A],
          ''    public_posts ||--o{ auth_users : '' @ [CHR 0x22] @ ''author'' @
            [CHR 0x22, CHR 0x0A]]"
proof -
  let ?rs = "[posts_editor_fk_bad, posts_author_fk, posts_author_fk_auth]"
  let ?org = "foldl store_record [] ?rs"
  have h2: "map read_item (map item_of ?rs) = map Inr ?rs"
    by (simp add: read_item_of)
  have a: "aggregate (map item_of ?rs) = Inr ?org"
    by (rule aggregate_items) (simp add: keyable_examples)
  have h3: "foreign_keys (table_data ?org (JStr ''public'') (JStr ''posts'')) =
     [\<lparr>fk_column = JStr ''editor'', fk_references = JStr ''users''\<rparr>] @
     \<lparr>fk_column = JStr ''author'', fk_references = JStr ''public.users''\<rparr> #
     [\<lparr>fk_column = JStr ''author'', fk_references = JStr ''auth.users''\<rparr>]"
    unfolding two_references_example by (simp add: store_eval)
  have h4: "\<forall>f \<in> set [\<lparr>fk_column = JStr ''editor'', fk_references = JStr ''users''\<rparr>].
      \<not> py_eq (fk_column f) (JStr ''author'')"
    by simp
  have h5: "py_eq (fk_column \<lparr>fk_column = JStr ''author'', fk_references = JStr ''public.users''\<rparr>)
      (JStr ''author'')"
    by simp
  have s: "sortable_map ?org"
    unfolding two_references_example by (simp add: map_eval store_eval)
  have p: "plain_references ?org"
    unfolding two_references_example by (simp add: map_eval store_eval)
  have l: "labels_of ?org posts_editor_fk_bad = [''FK '' @ [CHR 0xE2, CHR 0x86, CHR 0x92] @ '' users'']"
    "labels_of ?org posts_author_fk = [''FK '' @ [CHR 0xE2, CHR 0x86, CHR 0x92] @ '' public.users'']"
    "labels_of ?org posts_author_fk_auth =
      [''FK '' @ [CHR 0xE2, CHR 0x86, CHR 0x92] @ '' public.users'']"
    unfolding two_references_example
    by (simp_all add: labels_of_def constraint_labels_def store_eval record_eval fk_label_def
        arrow_def py_str_def)
  have sk: "sorted_keys ?org = [JStr ''public'']"
    unfolding two_references_example by (simp add: sorted_keys_def)
  have tk: "sorted_keys (tables_of ?org (JStr ''public'')) = [JStr ''posts'']"
    unfolding two_references_example by (simp add: sorted_keys_def store_eval)
  have tn: "length (tables_of ?org (JStr ''public'')) = 1"
    unfolding two_references_example by (simp add: store_eval)
  have rows: "rows_of (JStr ''public'') (JStr ''posts'') ?rs = ?rs"
    by (simp add: rows_of_def record_eval py_eq_def)
  have doc: "summary_with
            (\<lambda>r. row_with
               (if nullable r = JStr ''NULL'' then ''S'' @ [CHR 0xC3, CHR 0xAD] else ''No'')
               (labels_of ?org r) r)
            ''2024-01-01 00:00:00'' ?org ?rs =
       ''# Resumen del Esquema de Base de Datos'' @ [CHR 0x0A, CHR 0x0A] @
       ''*Generado el: 2024-01-01 00:00:00*'' @ [CHR 0x0A, CHR 0x0A] @
       ''## Esquema: public'' @ [CHR 0x0A, CHR 0x0A] @
       ''Contiene 1 tabla(s):'' @ [CHR 0x0A, CHR 0x0A] @
       ''### Tabla: posts'' @ [CHR 0x0A, CHR 0x0A] @
       ''#### Columnas'' @ [CHR 0x0A, CHR 0x0A] @
       ''| Nombre | Tipo | Nullable | Restricciones |'' @ [CHR 0x0A] @
       ''|--------|------|----------|---------------|'' @ [CHR 0x0A] @
       ''| editor | uuid | S'' @ [CHR 0xC3, CHR 0xAD] @ '' | FK '' @
         [CHR 0xE2, CHR 0x86, CHR 0x92] @ '' users |'' @ [CHR 0x0A] @
       ''| author | uuid | S'' @ [CHR 0xC3, CHR 0xAD] @ '' | FK '' @
         [CHR 0xE2, CHR 0x86, CHR 0x92] @ '' public.users |'' @ [CHR 0x0A] @
       ''| author | uuid | S'' @ [CHR 0xC3, CHR 0xAD] @ '' | FK '' @
         [CHR 0xE2, CHR 0x86, CHR 0x92] @ '' public.users |'' @ [CHR 0x0A] @
       [CHR 0x0A, CHR 0x0A]"
    unfolding summary_with_def
    by (simp only: sk tk tn rows l list.map concat.simps append_Nil2)
       (simp add: row_with_def py_str_def record_eval)
  have lines: "map relation_line (filter has_two_parts (fk_entries ?org)) =
      [''    public_posts ||--o{ public_users : '' @ [CHR 0x22] @ ''author'' @
            [CHR 0x22, CHR 0x0A],
       ''    public_posts ||--o{ auth_users : '' @ [CHR 0x22] @ ''author'' @
            [CHR 0x22, CHR 0x0A]]"
    unfolding two_references_example
    by (simp add: map_eval store_eval relation_line_def ref_schema_of_def ref_table_of_def
        split_dot_def py_str_def)
  note t = first_fk_label_and_lines[OF a h2 h3 h4 h5, of "''2024-01-01 00:00:00''"]
  from t s have sf: "summary_file (analyze ''2024-01-01 00:00:00'' (map item_of ?rs)) =
      Some (summary_with
            (\<lambda>r. row_with
               (if nullable r = JStr ''NULL'' then ''S'' @ [CHR 0xC3, CHR 0xAD] else ''No'')
               (labels_of ?org r) r)
            ''2024-01-01 00:00:00'' ?org ?rs)"
    by blast
  from t s p have ar: "all_relations ?org =
      Inr (map relation_line (filter has_two_parts (fk_entries ?org)))"
    by blast
  show ?thesis
    by (intro conjI) (fact a h3 sf[unfolded doc] ar[unfolded lines])+
qed

text \<open>
  C10 as stated fails: with two entries for \<open>author\<close>, the second with a null
  reference, the relationship view has one relationship line, not one per entry.
\<close>

theorem line_per_entry_counterexample:
  "aggregate (map item_of [posts_author_fk, posts_author_fk_null]) = Inr author_twice_map \<and>
   foreign_keys (table_data author_twice_map (JStr ''public'') (JStr ''posts'')) =
     [\<lparr>fk_column = JStr ''author'', fk_references = JStr ''public.users''\<rparr>,
      \<lparr>fk_column = JStr ''author'', fk_references = JNull\<rparr>] \<and>
   all_relations author_twice_map =
     Inr [''    public_posts ||--o{ public_users : '' @ [CHR 0x22] @ ''author'' @
          [CHR 0x22, CHR 0x0A]] \<and>
   relations_file (analyze ''2024-01-01 00:00:00''
       (map item_of [posts_author_fk, posts_author_fk_null])) =
     Some (''# Relaciones entre Tablas'' @ [CHR 0x0A, CHR 0x0A] @
       ''*Generado el: 2024-01-01 00:00:00*'' @ [CHR 0x0A, CHR 0x0A] @
       ''```mermaid'' @ [CHR 0x0A] @ ''erDiagram'' @ [CHR 0x0A] @
       ''    public_posts {'' @ [CHR 0x0A] @
       ''        uuid author '' @ [CHR 0x0A] @
       ''        uuid author '' @ [CHR 0x0A] @
       ''    }'' @ [CHR 0x0A] @
       ''    public_posts ||--o{ public_users : '' @ [CHR 0x22] @ ''author'' @
          [CHR 0x22, CHR 0x0A] @
       ''```'' @ [CHR 0x0A])"
proof -
  let ?rs = "[posts_author_fk, posts_author_fk_null]"
  have a: "aggregate (map item_of ?rs) = Inr (foldl store_record [] ?rs)"
    by (rule aggregate_items) (simp add: keyable_examples)
  have s: "sortable_map (foldl store_record [] ?rs)"
    unfolding author_twice_example author_twice_map_def by (simp add: map_eval store_eval)
  have p: "plain_references (foldl store_record [] ?rs)"
    unfolding author_twice_example author_twice_map_def by (simp add: map_eval store_eval)
  have fk: "foreign_keys (table_data author_twice_map (JStr ''public'') (JStr ''posts'')) =
     [\<lparr>fk_column = JStr ''author'', fk_references = JStr ''public.users''\<rparr>,
      \<lparr>fk_column = JStr ''author'', fk_references = JNull\<rparr>]"
    unfolding author_twice_map_def by (simp add: store_eval)
  have lines: "map relation_line (filter has_two_parts (fk_entries author_twice_map)) =
      [''    public_posts ||--o{ public_users : '' @ [CHR 0x22] @ ''author'' @
          [CHR 0x22, CHR 0x0A]]"
    unfolding author_twice_map_def
    by (simp add: map_eval store_eval relation_line_def ref_schema_of_def ref_table_of_def
        split_dot_def py_str_def)
  have doc: "relations_with
       [''    public_posts ||--o{ public_users : '' @ [CHR 0x22] @ ''author'' @
          [CHR 0x22, CHR 0x0A]]
       ''2024-01-01 00:00:00'' author_twice_map =
       ''# Relaciones entre Tablas'' @ [CHR 0x0A, CHR 0x0A] @
       ''*Generado el: 2024-01-01 00:00:00*'' @ [CHR 0x0A, CHR 0x0A] @
       ''```mermaid'' @ [CHR 0x0A] @ ''erDiagram'' @ [CHR 0x0A] @
       ''    public_posts {'' @ [CHR 0x0A] @
       ''        uuid author '' @ [CHR 0x0A] @
       ''        uuid author '' @ [CHR 0x0A] @
       ''    }'' @ [CHR 0x0A] @
       ''    public_posts ||--o{ public_users : '' @ [CHR 0x22] @ ''author'' @
          [CHR 0x22, CHR 0x0A] @
       ''```'' @ [CHR 0x0A]"
    unfolding author_twice_map_def
    by (simp add: relations_with_def entities_text_def sorted_keys_def store_eval
        entity_block_def entity_column_def py_str_def nl_def)
  note ar = all_relations_ok[OF s p, unfolded author_twice_example lines]
  have "relations_file (analyze ''2024-01-01 00:00:00'' (map item_of ?rs)) =
      Some (relations_with
        (map relation_line (filter has_two_parts (fk_entries (foldl store_record [] ?rs))))
        ''2024-01-01 00:00:00'' (foldl store_record [] ?rs))"
    unfolding analyze_success[OF a s p] by simp
  note rf = this[unfolded author_twice_example lines doc]
  show ?thesis
    by (intro conjI) (fact a[unfolded author_twice_example] fk ar rf)+
qed

end
